theory Spec2Isabelle
  imports Complex_Main
begin

section \<open>Strings\<close>

text \<open>
  A Python \<^verbatim>\<open>str\<close> is a sequence of Unicode code points, so it is modelled as a list of
  natural numbers: \<^verbatim>\<open>len\<close> is \<open>length\<close>, and the glyph U+2022 of the radio marker is
  one element. \<open>str\<close> turns an ASCII literal into such a list.
\<close>

type_synonym pystr = "nat list"

definition str :: "string \<Rightarrow> pystr" where
  "str s = map of_char s"

text \<open>\<^verbatim>\<open>str.isspace\<close> of one code point: the code points Python treats as whitespace.\<close>

definition is_space :: "nat \<Rightarrow> bool" where
  "is_space c = (c \<in> set [9, 10, 11, 12, 13, 28, 29, 30, 31, 32, 133, 160, 5760,
     8192, 8193, 8194, 8195, 8196, 8197, 8198, 8199, 8200, 8201, 8202,
     8232, 8233, 8239, 8287, 12288])"

text \<open>
  \<^verbatim>\<open>str.lower\<close>. The ASCII capitals move to their small letters; U+212A (Kelvin sign) and
  U+0130 are the only code points outside ASCII whose lower case contains an ASCII letter.
  Every other cased code point is mapped by Python to a code point outside ASCII, which no
  pattern of this program contains; the model leaves those in place.
\<close>

definition lower_cp :: "nat \<Rightarrow> pystr" where
  "lower_cp c = (if 65 \<le> c \<and> c \<le> 90 then [c + 32]
                 else if c = 8490 then [107]
                 else if c = 304 then [105, 775]
                 else [c])"

definition lower :: "pystr \<Rightarrow> pystr" where
  "lower s = concat (map lower_cp s)"

text \<open>\<^verbatim>\<open>s.startswith(p)\<close> and the substring test \<^verbatim>\<open>p in s\<close>.\<close>

fun startswith :: "pystr \<Rightarrow> pystr \<Rightarrow> bool" where
  "startswith s [] = True"
| "startswith [] (p # ps) = False"
| "startswith (c # cs) (p # ps) = (c = p \<and> startswith cs ps)"

fun contains :: "pystr \<Rightarrow> pystr \<Rightarrow> bool" where
  "contains p [] = (p = [])"
| "contains p (c # cs) = (startswith (c # cs) p \<or> contains p cs)"

text \<open>\<^verbatim>\<open>sep.join(xs)\<close>.\<close>

fun join :: "pystr \<Rightarrow> pystr list \<Rightarrow> pystr" where
  "join sep [] = []"
| "join sep [x] = x"
| "join sep (x # y # ys) = x @ sep @ join sep (y # ys)"

text \<open>\<^verbatim>\<open>s.strip()\<close>: whitespace removed at both ends.\<close>

definition strip :: "pystr \<Rightarrow> pystr" where
  "strip s = rev (dropWhile is_space (rev (dropWhile is_space s)))"

text \<open>
  The maximal runs of non-whitespace of a string, in order: what the tree builder stores
  for a multi-valued attribute such as \<^verbatim>\<open>class\<close> or \<^verbatim>\<open>rel\<close>.
\<close>

fun tokens_acc :: "pystr \<Rightarrow> pystr \<Rightarrow> pystr list" where
  "tokens_acc cur [] = (if cur = [] then [] else [cur])"
| "tokens_acc cur (c # cs) =
     (if is_space c then (if cur = [] then tokens_acc [] cs else cur # tokens_acc [] cs)
      else tokens_acc (cur @ [c]) cs)"

definition tokens :: "pystr \<Rightarrow> pystr list" where
  "tokens s = tokens_acc [] s"

section \<open>The document tree\<close>

text \<open>
  The tree BeautifulSoup builds: a \<^verbatim>\<open>Tag\<close> with its name, its attribute dictionary and its
  contents, a \<^verbatim>\<open>NavigableString\<close>, a \<^verbatim>\<open>Comment\<close>, or a string of another subclass of
  \<^verbatim>\<open>NavigableString\<close>. The parser gives the text inside \<^verbatim>\<open>rt\<close>, \<^verbatim>\<open>rp\<close>, \<^verbatim>\<open>template\<close>,
  \<^verbatim>\<open>script\<close> and \<^verbatim>\<open>style\<close> the class of its container, and a document type, a declaration
  or a processing instruction its own class; the class of a string never changes
  afterwards. The attribute dictionary is an
  association list read by \<open>map_of\<close> (first entry of a key); a value is kept as the text
  of the attribute, and the token list of \<^verbatim>\<open>class\<close> and \<^verbatim>\<open>rel\<close> is \<open>tokens\<close> of it.
  A soup is the list of the top-level nodes of the document.
\<close>

datatype string_class =
    CData | RubyTextString | RubyParenthesisString | TemplateString | Script | Stylesheet
  | Doctype | Declaration | ProcessingInstruction

datatype node =
    Element pystr "(pystr \<times> pystr) list" "node list"
  | NavigableString pystr
  | Comment pystr
  | SpecialString string_class pystr

type_synonym soup = "node list"

fun is_tag :: "node \<Rightarrow> bool" where
  "is_tag (Element n a cs) = True"
| "is_tag _ = False"

fun name_of :: "node \<Rightarrow> pystr" where
  "name_of (Element n a cs) = n"
| "name_of _ = []"

fun attrs_of :: "node \<Rightarrow> (pystr \<times> pystr) list" where
  "attrs_of (Element n a cs) = a"
| "attrs_of _ = []"

fun contents_of :: "node \<Rightarrow> node list" where
  "contents_of (Element n a cs) = cs"
| "contents_of _ = []"

text \<open>\<^verbatim>\<open>el.has_attr(k)\<close>, \<^verbatim>\<open>el.get(k)\<close> and \<^verbatim>\<open>el.get(k) or ''\<close>.\<close>

definition has_attr :: "node \<Rightarrow> pystr \<Rightarrow> bool" where
  "has_attr el k = (map_of (attrs_of el) k \<noteq> None)"

definition get :: "node \<Rightarrow> pystr \<Rightarrow> pystr option" where
  "get el k = map_of (attrs_of el) k"

definition get_or_empty :: "node \<Rightarrow> pystr \<Rightarrow> pystr" where
  "get_or_empty el k = (case get el k of None \<Rightarrow> [] | Some v \<Rightarrow> v)"

text \<open>\<^verbatim>\<open>' '.join(el.get(k, []))\<close> for a multi-valued attribute \<open>k\<close>.\<close>

definition joined_tokens :: "node \<Rightarrow> pystr \<Rightarrow> pystr" where
  "joined_tokens el k = join (str '' '') (tokens (get_or_empty el k))"

text \<open>
  \<open>is_named names\<close> is the filter of \<^verbatim>\<open>find_all(names)\<close>: a tag whose name is one of
  \<open>names\<close>.
\<close>

definition is_named :: "pystr list \<Rightarrow> node \<Rightarrow> bool" where
  "is_named names nd = (is_tag nd \<and> name_of nd \<in> set names)"

text \<open>
  \<^verbatim>\<open>soup.find_all(...)\<close>: every node below the root that satisfies the filter, in document
  order (a node before its descendants, siblings left to right).
\<close>

fun descendants_and_self :: "node \<Rightarrow> node list" where
  "descendants_and_self (Element n a cs) =
     Element n a cs # concat (map descendants_and_self cs)"
| "descendants_and_self (NavigableString s) = [NavigableString s]"
| "descendants_and_self (Comment s) = [Comment s]"
| "descendants_and_self (SpecialString c s) = [SpecialString c s]"

definition descendants :: "soup \<Rightarrow> node list" where
  "descendants sp = concat (map descendants_and_self sp)"

definition find_all :: "(node \<Rightarrow> bool) \<Rightarrow> soup \<Rightarrow> node list" where
  "find_all P sp = filter P (descendants sp)"

section \<open>The aggressive strip: removals\<close>

text \<open>
  \<^verbatim>\<open>for tag in soup.find_all(P): tag.decompose()\<close>, where \<open>P\<close> reads only the name and the
  attributes of the tag. The list of matches is taken first; each match is then cut out of
  its parent with everything below it, and cutting out a node that went away with an
  ancestor changes nothing. The tree that remains is the old one without the matching
  nodes and their subtrees.
\<close>

fun decompose_in :: "(node \<Rightarrow> bool) \<Rightarrow> node \<Rightarrow> node" where
  "decompose_in P (Element n a cs) =
     Element n a (map (decompose_in P) (filter (\<lambda>c. \<not> P c) cs))"
| "decompose_in P (NavigableString s) = NavigableString s"
| "decompose_in P (Comment s) = Comment s"
| "decompose_in P (SpecialString c s) = SpecialString c s"

definition decompose_all :: "(node \<Rightarrow> bool) \<Rightarrow> soup \<Rightarrow> soup" where
  "decompose_all P sp = map (decompose_in P) (filter (\<lambda>c. \<not> P c) sp)"

text \<open>
  The test on a \<^verbatim>\<open>link\<close>: its \<^verbatim>\<open>rel\<close> tokens, joined by a space and lowered, contain
  \<^verbatim>\<open>stylesheet\<close>, \<^verbatim>\<open>preload\<close> or \<^verbatim>\<open>preconnect\<close>.
\<close>

definition is_style_link :: "node \<Rightarrow> bool" where
  "is_style_link nd =
     (is_named [str ''link''] nd \<and>
      (let rel = lower (joined_tokens nd (str ''rel''))
       in contains (str ''stylesheet'') rel \<or> contains (str ''preload'') rel
          \<or> contains (str ''preconnect'') rel))"

text \<open>
  The event handler attributes: every key \<open>a\<close> with \<^verbatim>\<open>a.lower().startswith('on')\<close> is
  deleted from the dictionary of every tag.
\<close>

definition is_event_attr :: "pystr \<Rightarrow> bool" where
  "is_event_attr a = startswith (lower a) (str ''on'')"

fun remove_event_attrs_in :: "node \<Rightarrow> node" where
  "remove_event_attrs_in (Element n a cs) =
     Element n (filter (\<lambda>kv. \<not> is_event_attr (fst kv)) a) (map remove_event_attrs_in cs)"
| "remove_event_attrs_in (NavigableString s) = NavigableString s"
| "remove_event_attrs_in (Comment s) = Comment s"
| "remove_event_attrs_in (SpecialString c s) = SpecialString c s"

definition remove_event_attrs :: "soup \<Rightarrow> soup" where
  "remove_event_attrs sp = map remove_event_attrs_in sp"

fun is_comment :: "node \<Rightarrow> bool" where
  "is_comment (Comment s) = True"
| "is_comment _ = False"

fun extract_comments_in :: "node \<Rightarrow> node" where
  "extract_comments_in (Element n a cs) =
     Element n a (map extract_comments_in (filter (\<lambda>c. \<not> is_comment c) cs))"
| "extract_comments_in (NavigableString s) = NavigableString s"
| "extract_comments_in (Comment s) = Comment s"
| "extract_comments_in (SpecialString c s) = SpecialString c s"

definition extract_comments :: "soup \<Rightarrow> soup" where
  "extract_comments sp = map extract_comments_in (filter (\<lambda>c. \<not> is_comment c) sp)"

section \<open>Checkbox and radio flattening\<close>

text \<open>The four marker texts; U+2022 is the code point 8226.\<close>

definition box_checked :: pystr where "box_checked = str ''[x] ''"
definition box_unchecked :: pystr where "box_unchecked = str ''[ ] ''"
definition radio_checked :: pystr where "radio_checked = [40, 8226, 41, 32]"
definition radio_unchecked :: pystr where "radio_unchecked = str ''( ) ''"

subsection \<open>Native inputs\<close>

text \<open>
  The body of the loop over \<^verbatim>\<open>soup.find_all('input')\<close>: \<open>None\<close> when the input is left
  alone, the marker text otherwise. \<open>checked\<close> is the source's expression, with the
  comparison of the attribute value with itself.
\<close>

definition native_marker :: "node \<Rightarrow> pystr option" where
  "native_marker inp =
     (let t = lower (get_or_empty inp (str ''type''))
      in if t = str ''checkbox'' \<or> t = str ''radio'' then
           (let checked = (has_attr inp (str ''checked'') \<and>
                  (get inp (str ''checked'') \<in> set [Some (str ''true''), Some (str ''checked''), Some []]
                   \<or> get inp (str ''checked'') = get inp (str ''checked'')))
            in if t = str ''checkbox''
               then Some (if checked then box_checked else box_unchecked)
               else Some (if checked then radio_checked else radio_unchecked))
         else None)"

text \<open>
  \<^verbatim>\<open>inp.insert_before(NavigableString(marker)); inp.decompose()\<close> for every input of the
  list: the input is replaced, in the contents of its parent, by the marker text. The
  parser gives an \<^verbatim>\<open>input\<close> no contents, so no input of the list lies below another one; on
  a tree where one did, the model lets it go away with the input above it.
\<close>

fun flatten_native_in :: "node \<Rightarrow> node" where
  "flatten_native_in (Element n a cs) =
     (if n = str ''input'' \<and> native_marker (Element n a cs) \<noteq> None
      then NavigableString (the (native_marker (Element n a cs)))
      else Element n a (map flatten_native_in cs))"
| "flatten_native_in (NavigableString s) = NavigableString s"
| "flatten_native_in (Comment s) = Comment s"
| "flatten_native_in (SpecialString c s) = SpecialString c s"

definition flatten_native :: "soup \<Rightarrow> soup" where
  "flatten_native sp = map flatten_native_in sp"

subsection \<open>Custom visual markers\<close>

text \<open>\<^verbatim>\<open>el.find_next_sibling('div')\<close>, from the siblings that follow \<open>el\<close>.\<close>

definition find_next_sibling_div :: "node list \<Rightarrow> node option" where
  "find_next_sibling_div following = find (is_named [str ''div'']) following"

text \<open>
  \<^verbatim>\<open>el.select_one('.c')\<close>: the first tag below \<open>el\<close>, in document order, whose class
  tokens contain \<open>c\<close>.
\<close>

definition has_class :: "pystr \<Rightarrow> node \<Rightarrow> bool" where
  "has_class c nd = (is_tag nd \<and> c \<in> set (tokens (get_or_empty nd (str ''class''))))"

definition select_one_class :: "pystr \<Rightarrow> node \<Rightarrow> node option" where
  "select_one_class c el = find (has_class c) (descendants (contents_of el))"

text \<open>The loop over the three selectors, which stops at the first one that finds a tag.\<close>

fun first_inner :: "pystr list \<Rightarrow> node \<Rightarrow> node option" where
  "first_inner [] el = None"
| "first_inner (c # cs) el =
     (case select_one_class c el of Some inner \<Rightarrow> Some inner | None \<Rightarrow> first_inner cs el)"

definition inner_selectors :: "pystr list" where
  "inner_selectors = [str ''fa'', str ''uu-coursekit-result-state-background'',
                      str ''uu-coursekit-wrong-state-background'']"

definition is_radio_style :: "pystr \<Rightarrow> bool" where
  "is_radio_style style =
     (contains (str ''border-radius: 100%'') style \<or> contains (str ''border-radius:100%'') style
      \<or> contains (str ''width: 32px'') style)"

text \<open>
  \<^verbatim>\<open>is_checked_marker(marker_span)\<close>; \<open>following\<close> are the siblings after the span. The result
  is the pair of the checked flag and the base marker.
\<close>

definition is_checked_marker :: "node \<Rightarrow> node list \<Rightarrow> bool \<times> pystr" where
  "is_checked_marker marker_span following =
     (let style = lower (get_or_empty marker_span (str ''style''));
          is_radio = is_radio_style style;
          classes = lower (joined_tokens marker_span (str ''class''))
      in if contains (str ''result-state'') classes
         then (True, if is_radio then radio_checked else box_checked)
         else (case first_inner inner_selectors marker_span of
                 Some inner \<Rightarrow>
                   (let inner_style = lower (get_or_empty inner (str ''style''));
                        checked = (\<not> contains (str ''visibility: hidden'') inner_style)
                    in (checked, if is_radio then radio_checked else box_checked))
               | None \<Rightarrow>
                   (case find_next_sibling_div following of
                      Some sibling_text \<Rightarrow>
                        (let sib_style = lower (get_or_empty sibling_text (str ''style''))
                         in if contains (str ''opacity: 0.6'') sib_style
                               \<or> contains (str ''opacity:.6'') sib_style
                            then (False, if is_radio then radio_unchecked else box_unchecked)
                            else (False, if is_radio then radio_unchecked else box_unchecked))
                    | None \<Rightarrow> (False, if is_radio then radio_unchecked else box_unchecked))))"

text \<open>\<^verbatim>\<open>s.replace(a, b)\<close> for one-character strings \<open>a\<close> and \<open>b\<close>.\<close>

definition replace_cp :: "nat \<Rightarrow> nat \<Rightarrow> pystr \<Rightarrow> pystr" where
  "replace_cp a b s = map (\<lambda>c. if c = a then b else c) s"

text \<open>The marker text derived from the result of \<open>is_checked_marker\<close>.\<close>

definition marker_text_of :: "bool \<times> pystr \<Rightarrow> pystr" where
  "marker_text_of r =
     (case r of (checked, base_marker) \<Rightarrow>
        if checked then base_marker
        else if contains (str ''['') base_marker then replace_cp 120 32 base_marker
        else replace_cp 8226 32 base_marker)"

text \<open>
  \<^verbatim>\<open>tag.get_text(separator, strip)\<close>. The strings below the tag are taken in document order,
  but only those of the classes the tag is interested in: for \<^verbatim>\<open>rt\<close>, \<^verbatim>\<open>rp\<close>, \<^verbatim>\<open>template\<close>,
  \<^verbatim>\<open>script\<close> and \<^verbatim>\<open>style\<close> the strings of exactly the class of that container, for every other
  tag the strings of exactly the classes \<^verbatim>\<open>NavigableString\<close> and \<^verbatim>\<open>CData\<close>. With \<^verbatim>\<open>strip\<close>, each
  string is stripped and the empty ones are left out. The \<^verbatim>\<open>BeautifulSoup\<close> object is itself a
  tag, named \<^verbatim>\<open>[document]\<close>, whose contents are the soup.
\<close>

definition string_containers :: "pystr \<Rightarrow> string_class option" where
  "string_containers nm =
     (if nm = str ''rt'' then Some RubyTextString
      else if nm = str ''rp'' then Some RubyParenthesisString
      else if nm = str ''style'' then Some Stylesheet
      else if nm = str ''script'' then Some Script
      else if nm = str ''template'' then Some TemplateString
      else None)"

fun interesting_string :: "pystr \<Rightarrow> node \<Rightarrow> bool" where
  "interesting_string nm (Element n a cs) = False"
| "interesting_string nm (NavigableString s) = (string_containers nm = None)"
| "interesting_string nm (Comment s) = False"
| "interesting_string nm (SpecialString c s) =
     (case string_containers nm of Some c' \<Rightarrow> c = c' | None \<Rightarrow> c = CData)"

fun string_text :: "node \<Rightarrow> pystr" where
  "string_text (Element n a cs) = []"
| "string_text (NavigableString s) = s"
| "string_text (Comment s) = s"
| "string_text (SpecialString c s) = s"

definition all_strings :: "bool \<Rightarrow> node \<Rightarrow> pystr list" where
  "all_strings strp tag =
     (let found = map string_text
                    (filter (interesting_string (name_of tag)) (descendants (contents_of tag)))
      in if strp then filter (\<lambda>s. s \<noteq> []) (map strip found) else found)"

definition get_text :: "pystr \<Rightarrow> bool \<Rightarrow> node \<Rightarrow> pystr" where
  "get_text separator strp tag = join separator (all_strings strp tag)"

definition document :: "soup \<Rightarrow> node" where
  "document sp = Element (str ''[document]'') [] sp"

text \<open>
  The tests of the loop over \<^verbatim>\<open>soup.find_all('span')\<close>: the class of the span contains
  \<^verbatim>\<open>uu-coursekit\<close>, and a \<^verbatim>\<open>div\<close> follows it among its siblings whose stripped text is
  not empty.
\<close>

definition is_candidate :: "node \<Rightarrow> bool" where
  "is_candidate nd =
     (is_named [str ''span''] nd \<and>
      contains (str ''uu-coursekit'') (lower (joined_tokens nd (str ''class''))))"

definition has_text_div :: "node list \<Rightarrow> bool" where
  "has_text_div following =
     (case find_next_sibling_div following of
        None \<Rightarrow> False
      | Some text_div \<Rightarrow> get_text [] True text_div \<noteq> [])"

text \<open>
  The loop visits the spans in document order. When it reaches a span, nothing at or after
  the span in document order has changed yet, apart from marker texts put between its
  following siblings: so the tests and \<open>is_checked_marker\<close> read the span, what is below
  it and its following siblings as they were before the loop. A span that passes the tests
  is cut out with everything below it (the spans below it, met later in the list, are
  detached and have no class any more, so they are skipped), and its marker text is put
  immediately before the first \<^verbatim>\<open>div\<close> that follows it; the marker texts of several spans
  before the same \<^verbatim>\<open>div\<close> stand in the order of the spans.

  \<open>flatten_custom pend nds\<close> walks a list of siblings from left to right; \<open>pend\<close> holds the
  marker texts of the spans already cut out that wait for the next \<^verbatim>\<open>div\<close>.
\<close>

fun flatten_custom :: "pystr list \<Rightarrow> node list \<Rightarrow> node list" where
  "flatten_custom pend [] = map NavigableString pend"
| "flatten_custom pend (Element n a cs # following) =
     (if is_named [str ''div''] (Element n a cs)
      then map NavigableString pend @
           Element n a (flatten_custom [] cs) # flatten_custom [] following
      else if is_candidate (Element n a cs) \<and> has_text_div following
      then flatten_custom
             (pend @ [marker_text_of (is_checked_marker (Element n a cs) following)]) following
      else Element n a (flatten_custom [] cs) # flatten_custom pend following)"
| "flatten_custom pend (NavigableString s # following) =
     NavigableString s # flatten_custom pend following"
| "flatten_custom pend (Comment s # following) = Comment s # flatten_custom pend following"
| "flatten_custom pend (SpecialString c s # following) =
     SpecialString c s # flatten_custom pend following"

section \<open>The aggressive strip\<close>

text \<open>The steps of \<^verbatim>\<open>strip_nontext\<close> on the parsed tree, in the order of the source.\<close>

definition strip_soup :: "bool \<Rightarrow> bool \<Rightarrow> soup \<Rightarrow> soup" where
  "strip_soup keep_images flatten_inputs sp =
     (let s1 = decompose_all (is_named [str ''script'', str ''style'']) sp;
          s2 = decompose_all is_style_link s1;
          s3 = decompose_all (is_named [str ''iframe'', str ''embed'', str ''object'']) s2;
          s4 = remove_event_attrs s3;
          s5 = (if \<not> keep_images then decompose_all (is_named [str ''img'']) s4 else s4);
          s6 = extract_comments s5
      in if flatten_inputs then flatten_custom [] (flatten_native s6) else s6)"

text \<open>
  \<^verbatim>\<open>minify_only\<close> hands the text to \<^verbatim>\<open>htmlmin.minify\<close> with fixed options;
  \<^verbatim>\<open>strip_nontext\<close> parses with BeautifulSoup, transforms the tree, writes it back with
  \<^verbatim>\<open>str(soup)\<close> and minifies. The three library functions are parameters.
\<close>

definition minify_only :: "(pystr \<Rightarrow> pystr) \<Rightarrow> pystr \<Rightarrow> pystr" where
  "minify_only htmlmin html = htmlmin html"

definition strip_nontext ::
  "(pystr \<Rightarrow> soup) \<Rightarrow> (soup \<Rightarrow> pystr) \<Rightarrow> (pystr \<Rightarrow> pystr) \<Rightarrow> pystr \<Rightarrow> bool \<Rightarrow> bool \<Rightarrow> pystr" where
  "strip_nontext parse to_markup htmlmin html keep_images flatten_inputs =
     minify_only htmlmin (to_markup (strip_soup keep_images flatten_inputs (parse html)))"

text \<open>A tag that carries an attribute whose name, lowered, starts with \<^verbatim>\<open>on\<close>.\<close>

definition has_event_attr :: "node \<Rightarrow> bool" where
  "has_event_attr nd = (is_tag nd \<and> filter is_event_attr (map fst (attrs_of nd)) \<noteq> [])"

section \<open>The analyzer\<close>

text \<open>
  \<^verbatim>\<open>_len_bytes\<close>: the length of the UTF-8 encoding, where a code point that cannot be
  encoded (a surrogate) is left out.
\<close>

definition utf8_len :: "nat \<Rightarrow> nat" where
  "utf8_len c = (if c < 128 then 1 else if c < 2048 then 2
                 else if 55296 \<le> c \<and> c \<le> 57343 then 0
                 else if c < 65536 then 3 else 4)"

definition len_bytes :: "pystr \<Rightarrow> nat" where
  "len_bytes s = sum_list (map utf8_len s)"

record size_report =
  file_size :: nat
  minified_size :: nat
  text_chars :: nat
  comments_bytes :: nat
  scripts_bytes :: nat
  styles_bytes :: nat
  inline_style_attr_bytes :: nat
  data_uri_bytes :: nat
  images_count :: nat
  scripts_count :: nat
  styles_count :: nat

text \<open>
  The pattern \<^verbatim>\<open>data:[^;]+;base64,([A-Za-z0-9+/=]+)\<close>. Both repetitions are greedy and
  nothing they could give back would let the rest match, so a match at the start of a
  string is: \<^verbatim>\<open>data:\<close>, the longest run without \<^verbatim>\<open>;\<close> (not empty), \<^verbatim>\<open>;base64,\<close>, and
  the longest run of base64 characters (not empty). \<open>match_here\<close> gives the group and what
  follows the match.
\<close>

definition is_b64_char :: "nat \<Rightarrow> bool" where
  "is_b64_char c = ((65 \<le> c \<and> c \<le> 90) \<or> (97 \<le> c \<and> c \<le> 122) \<or> (48 \<le> c \<and> c \<le> 57)
                    \<or> c = 43 \<or> c = 47 \<or> c = 61)"

definition match_here :: "pystr \<Rightarrow> (pystr \<times> pystr) option" where
  "match_here s =
     (if startswith s (str ''data:'') then
        (let s1 = drop 5 s;
             mime = takeWhile (\<lambda>c. c \<noteq> 59) s1;
             s2 = dropWhile (\<lambda>c. c \<noteq> 59) s1
         in if mime = [] then None
            else if startswith s2 (str '';base64,'') then
              (let s3 = drop 8 s2;
                   payload = takeWhile is_b64_char s3
               in if payload = [] then None else Some (payload, dropWhile is_b64_char s3))
            else None)
      else None)"

text \<open>
  \<^verbatim>\<open>pattern.finditer(s)\<close>, as the list of the groups: the leftmost match, then the search
  goes on after it.
\<close>

function finditer :: "pystr \<Rightarrow> pystr list" where
  "finditer [] = []"
| "finditer (c # cs) =
     (case match_here (c # cs) of
        Some (payload, rest) \<Rightarrow> payload # finditer rest
      | None \<Rightarrow> finditer cs)"
  by pat_completeness auto
termination
proof (relation "measure length")
  show "wf (measure length)" by simp
next
  fix c cs x2 payload rest
  assume "match_here (c # cs) = Some x2" and "(payload, rest) = x2"
  then have m: "match_here (c # cs) = Some (payload, rest)" by simp
  have le: "length (dropWhile P xs) \<le> length xs" for P and xs :: pystr
    by (rule length_dropWhile_le)
  from m have "startswith (c # cs) (str ''data:'')"
    by (auto simp: match_here_def split: if_splits)
  from m have "rest = dropWhile is_b64_char (drop 8 (dropWhile (\<lambda>c. c \<noteq> 59) (drop 5 (c # cs))))"
    by (auto simp: match_here_def Let_def split: if_splits)
  moreover have "length (dropWhile is_b64_char (drop 8 (dropWhile (\<lambda>c. c \<noteq> 59) (drop 5 (c # cs)))))
      \<le> length (drop 8 (dropWhile (\<lambda>c. c \<noteq> 59) (drop 5 (c # cs))))" by (rule le)
  moreover have "length (drop 8 (dropWhile (\<lambda>c. c \<noteq> 59) (drop 5 (c # cs))))
      \<le> length (dropWhile (\<lambda>c. c \<noteq> 59) (drop 5 (c # cs)))" by simp
  moreover have "length (dropWhile (\<lambda>c. c \<noteq> 59) (drop 5 (c # cs))) \<le> length (drop 5 (c # cs))"
    by (rule le)
  moreover have "length (drop 5 (c # cs)) < length (c # cs)" by simp
  ultimately show "(rest, c # cs) \<in> measure length" by simp
next
  fix c cs
  show "(cs, c # cs) \<in> measure length" by simp
qed


text \<open>
  The body of the \<^verbatim>\<open>try\<close> statement for one payload: the length of the decoded bytes, or,
  when \<^verbatim>\<open>base64.b64decode\<close> raises, \<^verbatim>\<open>int(len(b64) * 0.75)\<close>. The decoder is a parameter;
  \<open>None\<close> stands for any exception. The product with \<^verbatim>\<open>0.75\<close> is exact in floating point
  for every length below \<open>2 ^ 51\<close>, so the estimate is three quarters of the length rounded
  down.
\<close>

definition payload_bytes :: "(pystr \<Rightarrow> nat list option) \<Rightarrow> pystr \<Rightarrow> nat" where
  "payload_bytes b64decode b64 =
     (case b64decode b64 of
        Some decoded \<Rightarrow> length decoded
      | None \<Rightarrow> (length b64 * 3) div 4)"

text \<open>
  The two counters the nested function \<^verbatim>\<open>count_data_uri\<close> and the loops update, and
  \<^verbatim>\<open>count_data_uri(s)\<close> itself.
\<close>

record counters =
  uri_bytes :: nat
  images :: nat

definition count_data_uri :: "(pystr \<Rightarrow> nat list option) \<Rightarrow> pystr \<Rightarrow> counters \<Rightarrow> counters" where
  "count_data_uri b64decode s st =
     (if s = [] then st
      else fold (\<lambda>b64 st. st\<lparr>uri_bytes := uri_bytes st + payload_bytes b64decode b64\<rparr>)
             (finditer s) st)"

text \<open>\<^verbatim>\<open>img.get('src') or img.get('srcset')\<close>.\<close>

definition src_or_srcset :: "node \<Rightarrow> pystr option" where
  "src_or_srcset img =
     (case get img (str ''src'') of
        Some v \<Rightarrow> if v \<noteq> [] then Some v else get img (str ''srcset'')
      | None \<Rightarrow> get img (str ''srcset''))"

text \<open>The body of the loop over \<^verbatim>\<open>find_all(['img', 'source'])\<close>.\<close>

definition count_image :: "(pystr \<Rightarrow> nat list option) \<Rightarrow> node \<Rightarrow> counters \<Rightarrow> counters" where
  "count_image b64decode img st =
     (case src_or_srcset img of
        Some src \<Rightarrow>
          if src \<noteq> [] \<and> startswith src (str ''data:'')
          then count_data_uri b64decode src (st\<lparr>images := images st + 1\<rparr>)
          else st
      | None \<Rightarrow> st)"

text \<open>The body of the loop over \<^verbatim>\<open>find_all(True)\<close> for the style attributes.\<close>

definition count_style :: "(pystr \<Rightarrow> nat list option) \<Rightarrow> node \<Rightarrow> counters \<Rightarrow> counters" where
  "count_style b64decode el st =
     (case get el (str ''style'') of
        Some style_attr \<Rightarrow> if style_attr \<noteq> [] then count_data_uri b64decode style_attr st else st
      | None \<Rightarrow> st)"

definition count_data_uris :: "(pystr \<Rightarrow> nat list option) \<Rightarrow> soup \<Rightarrow> counters" where
  "count_data_uris b64decode soup_full =
     fold (count_style b64decode) (find_all is_tag soup_full)
       (fold (count_image b64decode) (find_all (is_named [str ''img'', str ''source'']) soup_full)
          \<lparr>uri_bytes = 0, images = 0\<rparr>)"

text \<open>The bytes a script adds: its text and, when it has one, its \<^verbatim>\<open>src\<close> attribute.\<close>

definition script_bytes :: "node \<Rightarrow> nat" where
  "script_bytes s =
     len_bytes (get_text [] False s) +
     (if has_attr s (str ''src'') then len_bytes (the (get s (str ''src''))) else 0)"

definition style_attr_bytes :: "node \<Rightarrow> nat" where
  "style_attr_bytes el =
     (if has_attr el (str ''style'') then len_bytes (the (get el (str ''style''))) else 0)"

text \<open>
  \<^verbatim>\<open>analyze_html\<close>. The parser, \<^verbatim>\<open>htmlmin.minify\<close> with the options of the source and
  \<^verbatim>\<open>base64.b64decode\<close> are parameters. The text length is taken on a first tree without
  scripts and styles, the other numbers on a second parse.
\<close>

definition analyze_html ::
  "(pystr \<Rightarrow> soup) \<Rightarrow> (pystr \<Rightarrow> pystr) \<Rightarrow> (pystr \<Rightarrow> nat list option) \<Rightarrow> pystr \<Rightarrow> size_report" where
  "analyze_html parse htmlmin b64decode html =
     (let soup = decompose_all (is_named [str ''script'', str ''style'']) (parse html);
          soup_full = parse html;
          comments = find_all is_comment soup_full;
          scripts = find_all (is_named [str ''script'']) soup_full;
          styles = find_all (is_named [str ''style'']) soup_full;
          cnt = count_data_uris b64decode soup_full;
          minified_html = htmlmin html
      in \<lparr>file_size = len_bytes html,
          minified_size = len_bytes minified_html,
          text_chars = length (get_text (str '' '') True (document soup)),
          comments_bytes = sum_list (map (\<lambda>c. case c of Comment s \<Rightarrow> len_bytes s | _ \<Rightarrow> 0) comments),
          scripts_bytes = sum_list (map script_bytes scripts),
          styles_bytes = sum_list (map (\<lambda>st. len_bytes (get_text [] False st)) styles),
          inline_style_attr_bytes = sum_list (map style_attr_bytes (find_all is_tag soup_full)),
          data_uri_bytes = uri_bytes cnt,
          images_count = images cnt,
          scripts_count = length scripts,
          styles_count = length styles\<rparr>)"

section \<open>Files and the command line\<close>

text \<open>
  The file system is a map from paths to the bytes of the files. The functions of the
  Python library that \<^verbatim>\<open>process_file\<close> and \<^verbatim>\<open>main\<close> rely on are the fields of a record:
  the parser, \<^verbatim>\<open>str(soup)\<close>, \<^verbatim>\<open>htmlmin.minify\<close> with the options of the source,
  \<^verbatim>\<open>base64.b64decode\<close>, the text that \<^verbatim>\<open>open(path, 'r', encoding='utf-8', errors='ignore')\<close>
  reads from the bytes of a file, the bytes that \<^verbatim>\<open>open(path, 'w', encoding='utf-8')\<close> stores
  for a text (\<open>None\<close> when the text cannot be encoded), and the first component of
  \<^verbatim>\<open>os.path.splitext\<close>.
\<close>

type_synonym path = pystr
type_synonym file_system = "path \<Rightarrow> nat list option"

record library =
  lib_parse :: "pystr \<Rightarrow> soup"
  lib_to_markup :: "soup \<Rightarrow> pystr"
  lib_htmlmin :: "pystr \<Rightarrow> pystr"
  lib_b64decode :: "pystr \<Rightarrow> nat list option"
  lib_read_text :: "nat list \<Rightarrow> pystr"
  lib_write_text :: "pystr \<Rightarrow> nat list option"
  lib_splitext :: "path \<Rightarrow> path"

datatype error = FileNotFoundError | ValueError | UnicodeEncodeError | SystemExit nat

definition default_output_path :: "library \<Rightarrow> path \<Rightarrow> pystr \<Rightarrow> path" where
  "default_output_path lib p suffix = lib_splitext lib p @ suffix"

text \<open>\<^verbatim>\<open>output or _default_output_path(path, suffix=f'.{mode}.html')\<close>.\<close>

definition resolve_output :: "library \<Rightarrow> path \<Rightarrow> pystr \<Rightarrow> path option \<Rightarrow> path" where
  "resolve_output lib p mode output =
     (case output of
        Some out \<Rightarrow> if out \<noteq> [] then out
                    else default_output_path lib p (str ''.'' @ mode @ str ''.html'')
      | None \<Rightarrow> default_output_path lib p (str ''.'' @ mode @ str ''.html''))"

text \<open>
  Writing the output: the file is opened, which empties it, and the text is written; a text
  that cannot be encoded raises.
\<close>

definition write_output ::
  "library \<Rightarrow> file_system \<Rightarrow> path \<Rightarrow> pystr \<Rightarrow> error option \<times> file_system" where
  "write_output lib fs out_path out_html =
     (case lib_write_text lib out_html of
        None \<Rightarrow> (Some UnicodeEncodeError, fs(out_path \<mapsto> []))
      | Some bytes \<Rightarrow> (None, fs(out_path \<mapsto> bytes)))"

definition process_file ::
  "library \<Rightarrow> file_system \<Rightarrow> path \<Rightarrow> pystr \<Rightarrow> path option \<Rightarrow> bool \<Rightarrow> bool
     \<Rightarrow> (error + size_report \<times> path \<times> path option) \<times> file_system" where
  "process_file lib fs p mode output keep_images flatten_inputs =
     (case fs p of
        None \<Rightarrow> (Inl FileNotFoundError, fs)
      | Some content \<Rightarrow>
         (let html = lib_read_text lib content;
              report = analyze_html (lib_parse lib) (lib_htmlmin lib) (lib_b64decode lib) html
          in if mode = str ''analyze'' then (Inr (report, p, None), fs)
             else if mode = str ''minify'' \<or> mode = str ''aggressive'' then
               (let out_html =
                      (if mode = str ''minify'' then minify_only (lib_htmlmin lib) html
                       else strip_nontext (lib_parse lib) (lib_to_markup lib) (lib_htmlmin lib)
                              html keep_images flatten_inputs);
                    out_path = resolve_output lib p mode output
                in case write_output lib fs out_path out_html of
                     (Some e, fs') \<Rightarrow> (Inl e, fs')
                   | (None, fs') \<Rightarrow> (Inr (report, p, Some out_path), fs'))
             else (Inl ValueError, fs)))"

text \<open>The parsed command line, and the numbers of the \<^verbatim>\<open>=== Output ===\<close> block.\<close>

record args =
  arg_input :: path
  arg_mode :: pystr
  arg_output :: "path option"
  arg_keep_images :: bool
  arg_flatten_inputs :: bool

record output_block =
  orig :: nat
  new_size :: nat
  savings :: int
  pct :: real

text \<open>
  \<^verbatim>\<open>main\<close> after the parsing of the arguments: the report that is printed, and the output
  block when a file was written. \<^verbatim>\<open>os.path.getsize\<close> is the number of bytes of the file. The
  quotient of the percentage is taken in the reals; the source takes it in floating point.
\<close>

definition main ::
  "library \<Rightarrow> file_system \<Rightarrow> args \<Rightarrow> (error + size_report \<times> output_block option) \<times> file_system" where
  "main lib fs a =
     (if fs (arg_input a) = None then (Inl (SystemExit 1), fs)
      else
        (case process_file lib fs (arg_input a) (arg_mode a) (arg_output a)
                (arg_keep_images a) (arg_flatten_inputs a) of
           (Inl e, fs') \<Rightarrow> (Inl e, fs')
         | (Inr (report, in_path, out_path), fs') \<Rightarrow>
             (case out_path of
                None \<Rightarrow> (Inr (report, None), fs')
              | Some out \<Rightarrow>
                  if out = [] then (Inr (report, None), fs')
                  else (case fs' out of
                          None \<Rightarrow> (Inl FileNotFoundError, fs')
                        | Some bytes \<Rightarrow>
                            (let orig = file_size report;
                                 new_size = length bytes;
                                 savings = int orig - int new_size;
                                 pct = (if orig \<noteq> 0 then real_of_int savings / real orig * 100 else 0)
                             in (Inr (report, Some \<lparr>orig = orig, new_size = new_size,
                                                    savings = savings, pct = pct\<rparr>), fs'))))))"

section \<open>Definitions used in the proofs\<close>

text \<open>
  \<open>clean Q nd\<close>: the name and the attributes of every tag at or below \<open>nd\<close> satisfy \<open>Q\<close>.
\<close>

fun clean :: "(pystr \<Rightarrow> (pystr \<times> pystr) list \<Rightarrow> bool) \<Rightarrow> node \<Rightarrow> bool" where
  "clean Q (Element n a cs) = (Q n a \<and> list_all (clean Q) cs)"
| "clean Q (NavigableString s) = True"
| "clean Q (Comment s) = True"
| "clean Q (SpecialString c s) = True"


text \<open>
  The inputs the flattening replaces: \<^verbatim>\<open>input\<close> tags whose lowered \<^verbatim>\<open>type\<close> is \<^verbatim>\<open>checkbox\<close>
  or \<^verbatim>\<open>radio\<close>; and the marker the specification gives for a kind and a checked flag.
\<close>

definition is_flattened_input :: "node \<Rightarrow> bool" where
  "is_flattened_input nd =
     (is_named [str ''input''] nd \<and>
      (lower (get_or_empty nd (str ''type'')) = str ''checkbox''
       \<or> lower (get_or_empty nd (str ''type'')) = str ''radio''))"

definition native_marker_spec :: "pystr \<Rightarrow> bool \<Rightarrow> pystr" where
  "native_marker_spec t checked =
     (if t = str ''checkbox'' then (if checked then box_checked else box_unchecked)
      else (if checked then radio_checked else radio_unchecked))"

text \<open>
  The inner indicator of a marker span by the preference of its three classes.
\<close>

definition inner_indicator :: "node \<Rightarrow> node option" where
  "inner_indicator marker_span =
     (case select_one_class (str ''fa'') marker_span of
        Some el \<Rightarrow> Some el
      | None \<Rightarrow>
         (case select_one_class (str ''uu-coursekit-result-state-background'') marker_span of
            Some el \<Rightarrow> Some el
          | None \<Rightarrow> select_one_class (str ''uu-coursekit-wrong-state-background'') marker_span))"

text \<open>
  The classification in the words of the claim. The declarations of an inline style are its
  parts between semicolons, each a property and a value around the first colon, stripped.
  A span is claimed to be a radio exactly when its style declares a \<^verbatim>\<open>border-radius\<close> of
  \<^verbatim>\<open>100%\<close> or a \<^verbatim>\<open>width\<close> of \<^verbatim>\<open>32px\<close>, and to be checked when \<^verbatim>\<open>result-state\<close> is one of the
  tokens of its class list, or else when its inner indicator is not hidden.
\<close>

fun split_acc :: "nat \<Rightarrow> pystr \<Rightarrow> pystr \<Rightarrow> pystr list" where
  "split_acc sep cur [] = [cur]"
| "split_acc sep cur (c # cs) =
     (if c = sep then cur # split_acc sep [] cs else split_acc sep (cur @ [c]) cs)"

definition declarations :: "pystr \<Rightarrow> (pystr \<times> pystr) list" where
  "declarations style =
     map (\<lambda>d. (strip (takeWhile (\<lambda>c. c \<noteq> 58) d), strip (drop 1 (dropWhile (\<lambda>c. c \<noteq> 58) d))))
       (split_acc 59 [] style)"

definition claimed_radio :: "node \<Rightarrow> bool" where
  "claimed_radio marker_span =
     (let ds = declarations (lower (get_or_empty marker_span (str ''style'')))
      in (str ''border-radius'', str ''100%'') \<in> set ds \<or> (str ''width'', str ''32px'') \<in> set ds)"

definition claimed_checked :: "node \<Rightarrow> bool" where
  "claimed_checked marker_span =
     (if str ''result-state'' \<in> set (tokens (lower (get_or_empty marker_span (str ''class''))))
      then True
      else (case inner_indicator marker_span of
              Some inner \<Rightarrow>
                \<not> contains (str ''visibility: hidden'') (lower (get_or_empty inner (str ''style'')))
            | None \<Rightarrow> False))"

text \<open>
  Three marker spans: one of class \<^verbatim>\<open>uu-coursekit-result-state\<close> around a hidden icon, one of
  style \<^verbatim>\<open>width:32px\<close> and one of style \<^verbatim>\<open>max-width: 32px\<close>.
\<close>

definition hidden_icon_span :: node where
  "hidden_icon_span =
     Element (str ''span'') [(str ''class'', str ''uu-coursekit-result-state'')]
       [Element (str ''i'') [(str ''class'', str ''fa''), (str ''style'', str ''visibility: hidden'')] []]"

definition tight_width_span :: node where
  "tight_width_span =
     Element (str ''span'') [(str ''class'', str ''uu-coursekit''), (str ''style'', str ''width:32px'')] []"

definition max_width_span :: node where
  "max_width_span =
     Element (str ''span'')
       [(str ''class'', str ''uu-coursekit''), (str ''style'', str ''max-width: 32px'')] []"

text \<open>
  A node that stays in its place while the marker spans below it are flattened.
\<close>

fun kept :: "node \<Rightarrow> node" where
  "kept (Element n a cs) = Element n a (flatten_custom [] cs)"
| "kept (NavigableString s) = NavigableString s"
| "kept (Comment s) = Comment s"
| "kept (SpecialString c s) = SpecialString c s"



text \<open>
  Example nodes: \<^verbatim>\<open><span class="uu-coursekit"></span>\<close>, \<^verbatim>\<open><b></b>\<close>, \<^verbatim>\<open><div>A</div>\<close>, a
  \<^verbatim>\<open>div\<close> whose only text is ruby text, \<^verbatim>\<open><div><ruby><rt>kan</rt></ruby></div>\<close>, and a
  \<^verbatim>\<open>div\<close> that holds the span and the \<^verbatim>\<open>div\<close>.
\<close>

definition vendor_span :: node where
  "vendor_span = Element (str ''span'') [(str ''class'', str ''uu-coursekit'')] []"

definition bold_tag :: node where
  "bold_tag = Element (str ''b'') [] []"

definition answer_div :: node where
  "answer_div = Element (str ''div'') [] [NavigableString (str ''A'')]"



text \<open>
  The example document of the specification and the tree the parser builds for it.
\<close>

definition example_html :: pystr where
  "example_html = str ''<html><body><!--c--><p style=\"color:red\">Hi</p></body></html>''"

definition example_soup :: soup where
  "example_soup =
     [Element (str ''html'') []
        [Element (str ''body'') []
           [Comment (str ''c''),
            Element (str ''p'') [(str ''style'', str ''color:red'')] [NavigableString (str ''Hi'')]]]]"

text \<open>
  The bytes counted for one attribute value: the sum over the matches of the pattern.
  \<open>has_data_src\<close> is the test of the image loop, and \<open>claimed_data_uri_bytes\<close> is the
  sum in the words of the claim, over the \<^verbatim>\<open>src\<close> or \<^verbatim>\<open>srcset\<close> of every image and the style of
  every tag.
\<close>

definition uri_sum :: "(pystr \<Rightarrow> nat list option) \<Rightarrow> pystr \<Rightarrow> nat" where
  "uri_sum b64decode s = sum_list (map (payload_bytes b64decode) (finditer s))"

definition has_data_src :: "node \<Rightarrow> bool" where
  "has_data_src img =
     (case src_or_srcset img of Some src \<Rightarrow> startswith src (str ''data:'') | None \<Rightarrow> False)"

definition claimed_data_uri_bytes :: "(pystr \<Rightarrow> nat list option) \<Rightarrow> soup \<Rightarrow> nat" where
  "claimed_data_uri_bytes b64decode soup_full =
     sum_list (map (\<lambda>img. case src_or_srcset img of Some src \<Rightarrow> uri_sum b64decode src | None \<Rightarrow> 0)
                 (find_all (is_named [str ''img'', str ''source'']) soup_full))
     + sum_list (map (\<lambda>el. uri_sum b64decode (get_or_empty el (str ''style'')))
                 (find_all is_tag soup_full))"

text \<open>
  What \<^verbatim>\<open>base64.b64decode\<close> does on the payloads of the examples: \<^verbatim>\<open>AAAA\<close> decodes to three
  zero bytes, and a payload of five data characters is rejected.
\<close>

definition sample_decoder :: "pystr \<Rightarrow> nat list option" where
  "sample_decoder b64 = (if b64 = str ''AAAA'' then Some [0, 0, 0] else None)"

text \<open>
  \<^verbatim>\<open><img srcset="a.png, data:i/p;base64,AAAA 2x">\<close>, and stand-ins for the parser on the two
  example documents and for the minifier.
\<close>

definition srcset_image :: node where
  "srcset_image =
     Element (str ''img'') [(str ''srcset'', str ''a.png, data:i/p;base64,AAAA 2x'')] []"

definition parse_srcset_image :: "pystr \<Rightarrow> soup" where
  "parse_srcset_image html = [srcset_image]"

definition parse_example :: "pystr \<Rightarrow> soup" where
  "parse_example html = example_soup"

definition no_minify :: "pystr \<Rightarrow> pystr" where
  "no_minify html = html"

text \<open>
  The text \<^verbatim>\<open>process_file\<close> writes in the modes \<^verbatim>\<open>minify\<close> and \<^verbatim>\<open>aggressive\<close>, and the report it
  returns for a file of given bytes.
\<close>

definition out_html_of :: "library \<Rightarrow> args \<Rightarrow> pystr \<Rightarrow> pystr" where
  "out_html_of lib a html =
     (if arg_mode a = str ''minify'' then minify_only (lib_htmlmin lib) html
      else strip_nontext (lib_parse lib) (lib_to_markup lib) (lib_htmlmin lib)
             html (arg_keep_images a) (arg_flatten_inputs a))"

definition report_of :: "library \<Rightarrow> nat list \<Rightarrow> size_report" where
  "report_of lib content =
     analyze_html (lib_parse lib) (lib_htmlmin lib) (lib_b64decode lib) (lib_read_text lib content)"

text \<open>
  An example run: the file \<^verbatim>\<open>a.html\<close> holds the bytes of \<^verbatim>\<open>a\<close>, the byte 255, which no UTF-8
  text contains, and \<^verbatim>\<open>b\<close>. The stand-ins for the library do what the library does on this
  run: reading drops the byte 255, writing stores an ASCII text as it is, and the path is
  split at its dot.
\<close>

definition sample_library :: library where
  "sample_library =
     \<lparr>lib_parse = (\<lambda>html. []), lib_to_markup = (\<lambda>sp. []), lib_htmlmin = no_minify,
      lib_b64decode = sample_decoder, lib_read_text = filter (\<lambda>b. b < 128),
      lib_write_text = (\<lambda>text. Some text), lib_splitext = takeWhile (\<lambda>c. c \<noteq> 46)\<rparr>"

definition sample_files :: file_system where
  "sample_files = [str ''a.html'' \<mapsto> [97, 255, 98]]"

definition sample_args :: args where
  "sample_args = \<lparr>arg_input = str ''a.html'', arg_mode = str ''minify'', arg_output = None,
                   arg_keep_images = False, arg_flatten_inputs = False\<rparr>"










text \<open>
  The place of a node in a tree: the tags above it, innermost first, each with the siblings
  before and after. \<open>wrap\<close> puts a node into that place. A frame passes when its tag is not
  itself an input that the flattening replaces. \<open>removable\<close> are the nodes the steps of the
  strip other than the flattening of native inputs act on.
\<close>

type_synonym frame = "pystr \<times> (pystr \<times> pystr) list \<times> node list \<times> node list"

fun wrap :: "frame list \<Rightarrow> node \<Rightarrow> node" where
  "wrap [] nd = nd"
| "wrap ((n, a, before, after) # fs) nd = wrap fs (Element n a (before @ nd # after))"

fun flat_frame :: "frame \<Rightarrow> frame" where
  "flat_frame (n, a, before, after) =
     (n, a, map flatten_native_in before, map flatten_native_in after)"

fun passes :: "frame \<Rightarrow> bool" where
  "passes (n, a, before, after) = (\<not> is_flattened_input (Element n a []))"

definition removable :: "bool \<Rightarrow> node \<Rightarrow> bool" where
  "removable keep_images nd =
     (is_named [str ''script'', str ''style'', str ''iframe'', str ''embed'', str ''object''] nd
      \<or> is_style_link nd \<or> has_event_attr nd \<or> is_comment nd \<or> is_candidate nd
      \<or> (is_named [str ''img''] nd \<and> \<not> keep_images))"

section \<open>The aggressive strip leaves no active content\<close>








lemma clean_flatten_native_in: "clean Q nd \<Longrightarrow> clean Q (flatten_native_in nd)"
  by (induction nd) (auto simp: list_all_iff)



lemma list_all_clean_flatten_custom:
  "list_all (clean Q) nds \<Longrightarrow> list_all (clean Q) (flatten_custom pend nds)"
proof (induction pend nds rule: flatten_custom.induct)
  case (1 pend)
  show ?case by (induction pend) simp_all
next
  case (2 pend n a cs following)
  let ?el = "Element n a cs"
  from "2.prems" have q: "Q n a" and ccs: "list_all (clean Q) cs"
    and cf: "list_all (clean Q) following" by simp_all
  have pendc: "list_all (clean Q) (map NavigableString pend)" by (induction pend) simp_all
  show ?case
  proof (cases "is_named [str ''div''] ?el")
    case True
    with "2.IH"(1,2) ccs cf q pendc show ?thesis by simp
  next
    case nd: False
    show ?thesis
    proof (cases "is_candidate ?el \<and> has_text_div following")
      case True
      with nd "2.IH"(3) cf show ?thesis by simp
    next
      case False
      then have "flatten_custom pend (?el # following) =
          Element n a (flatten_custom [] cs) # flatten_custom pend following"
        using nd by auto
      with False nd "2.IH"(4,5) ccs cf q show ?thesis by auto
    qed
  qed
next
  case (3 pend s following)
  then show ?case by simp
next
  case (4 pend s following)
  then show ?case by simp
next
  case (5 pend c s following)
  then show ?case by simp
qed

lemma filter_descendants_clean:
  assumes "\<And>n a cs. P (Element n a cs) \<Longrightarrow> \<not> Q n a"
    and "\<And>x. P x \<Longrightarrow> is_tag x"
  shows "clean Q nd \<Longrightarrow> filter P (descendants_and_self nd) = []"
proof (induction nd)
  case (Element n a cs)
  have "\<not> P (Element n a cs)" using Element.prems assms(1) by auto
  moreover have "\<forall>c\<in>set cs. filter P (descendants_and_self c) = []"
    using Element by (simp add: list_all_iff)
  ultimately show ?case by (simp add: filter_concat filter_empty_conv)
next
  case (NavigableString s)
  then show ?case using assms(2)[of "NavigableString s"] by auto
next
  case (Comment s)
  then show ?case using assms(2)[of "Comment s"] by auto
next
  case (SpecialString c s)
  then show ?case using assms(2)[of "SpecialString c s"] by auto
qed

lemma find_all_clean:
  assumes "\<And>n a cs. P (Element n a cs) \<Longrightarrow> \<not> Q n a"
    and "\<And>x. P x \<Longrightarrow> is_tag x"
    and "list_all (clean Q) sp"
  shows "find_all P sp = []"
proof -
  have "\<forall>nd\<in>set sp. filter P (descendants_and_self nd) = []"
    using filter_descendants_clean[of P Q] assms by (simp add: list_all_iff)
  then show ?thesis by (simp add: find_all_def descendants_def filter_concat)
qed




lemma list_all_clean_flatten_native:
  "list_all (clean Q) sp \<Longrightarrow> list_all (clean Q) (flatten_native sp)"
  by (simp add: flatten_native_def list_all_iff clean_flatten_native_in)
















section \<open>Trees on which a step has nothing to do\<close>

lemma find_all_Element_empty:
  "(find_all P (Element n a cs # rest) = []) =
   (\<not> P (Element n a cs) \<and> find_all P cs = [] \<and> find_all P rest = [])"
  by (auto simp: find_all_def descendants_def filter_empty_conv)

lemma find_all_string_empty:
  "(find_all P (NavigableString s # rest) = []) = (\<not> P (NavigableString s) \<and> find_all P rest = [])"
  "(find_all P (Comment s # rest) = []) = (\<not> P (Comment s) \<and> find_all P rest = [])"
  "(find_all P (SpecialString c s # rest) = []) =
     (\<not> P (SpecialString c s) \<and> find_all P rest = [])"
  by (auto simp: find_all_def descendants_def filter_empty_conv)

lemma no_candidate_unchanged_aux:
  "pend = [] \<Longrightarrow> find_all is_candidate nds = [] \<Longrightarrow> flatten_custom pend nds = nds"
proof (induction pend nds rule: flatten_custom.induct)
  case (1 pend)
  then show ?case by simp
next
  case (2 pend n a cs following)
  from "2.prems"(2) have nc: "\<not> is_candidate (Element n a cs)"
    and ccs: "find_all is_candidate cs = []" and cf: "find_all is_candidate following = []"
    by (simp_all add: find_all_Element_empty)
  show ?case
  proof (cases "is_named [str ''div''] (Element n a cs)")
    case True
    with "2.IH"(1,2) "2.prems"(1) ccs cf show ?thesis by simp
  next
    case False
    with "2.IH"(4,5) "2.prems"(1) nc ccs cf show ?thesis by simp
  qed
next
  case (3 pend s following)
  then show ?case by (simp add: find_all_string_empty)
next
  case (4 pend s following)
  then show ?case by (simp add: find_all_string_empty)
next
  case (5 pend c s following)
  then show ?case by (simp add: find_all_string_empty)
qed

lemma no_candidate_unchanged:
  "find_all is_candidate nds = [] \<Longrightarrow> flatten_custom [] nds = nds"
  by (rule no_candidate_unchanged_aux) simp_all

lemma self_in_descendants: "nd \<in> set (descendants_and_self nd)"
  by (cases nd) simp_all

lemma decompose_in_nothing:
  "filter P (descendants_and_self nd) = [] \<Longrightarrow> decompose_in P nd = nd"
proof (induction nd)
  case (Element n a cs)
  from Element.prems have "filter P (concat (map descendants_and_self cs)) = []"
    by (simp split: if_splits)
  then have c: "\<And>c. c \<in> set cs \<Longrightarrow> filter P (descendants_and_self c) = []"
    by (auto simp: filter_empty_conv)
  then have "\<And>c. c \<in> set cs \<Longrightarrow> \<not> P c"
    using self_in_descendants by (fastforce simp: filter_empty_conv)
  then have "filter (\<lambda>c. \<not> P c) cs = cs" by (simp add: filter_id_conv)
  moreover have "map (decompose_in P) cs = cs"
    using Element.IH c by (simp add: map_idI)
  ultimately show ?case by simp
qed simp_all

lemma decompose_all_nothing: "find_all P sp = [] \<Longrightarrow> decompose_all P sp = sp"
proof -
  assume a: "find_all P sp = []"
  then have c: "\<And>c. c \<in> set sp \<Longrightarrow> filter P (descendants_and_self c) = []"
    by (auto simp: find_all_def descendants_def filter_empty_conv)
  then have "\<And>c. c \<in> set sp \<Longrightarrow> \<not> P c"
    using self_in_descendants by (fastforce simp: filter_empty_conv)
  then have "filter (\<lambda>c. \<not> P c) sp = sp" by (simp add: filter_id_conv)
  moreover have "map (decompose_in P) sp = sp"
    using c by (simp add: map_idI decompose_in_nothing)
  ultimately show ?thesis by (simp add: decompose_all_def)
qed


lemma extract_comments_in_decompose_nd: "extract_comments_in nd = decompose_in is_comment nd"
  by (induction nd) simp_all

lemma extract_comments_in_decompose: "extract_comments_in = decompose_in is_comment"
  by (rule ext) (rule extract_comments_in_decompose_nd)

lemma extract_comments_nothing: "find_all is_comment sp = [] \<Longrightarrow> extract_comments sp = sp"
  using decompose_all_nothing[of is_comment sp]
  by (simp add: extract_comments_def decompose_all_def extract_comments_in_decompose)

lemma remove_event_attrs_in_nothing:
  "filter has_event_attr (descendants_and_self nd) = [] \<Longrightarrow> remove_event_attrs_in nd = nd"
proof (induction nd)
  case (Element n a cs)
  from Element.prems have h: "\<not> has_event_attr (Element n a cs)"
    and "filter has_event_attr (concat (map descendants_and_self cs)) = []"
    by (simp_all split: if_splits)
  then have c: "\<And>c. c \<in> set cs \<Longrightarrow> filter has_event_attr (descendants_and_self c) = []"
    by (auto simp: filter_empty_conv)
  have "filter (\<lambda>kv. \<not> is_event_attr (fst kv)) a = a"
    using h by (auto simp: has_event_attr_def filter_empty_conv filter_id_conv)
  moreover have "map remove_event_attrs_in cs = cs"
    using Element.IH c by (simp add: map_idI)
  ultimately show ?case by simp
qed simp_all

lemma remove_event_attrs_nothing:
  "find_all has_event_attr sp = [] \<Longrightarrow> remove_event_attrs sp = sp"
proof -
  assume "find_all has_event_attr sp = []"
  then have "\<And>c. c \<in> set sp \<Longrightarrow> filter has_event_attr (descendants_and_self c) = []"
    by (auto simp: find_all_def descendants_def filter_empty_conv)
  then show ?thesis by (simp add: remove_event_attrs_def map_idI remove_event_attrs_in_nothing)
qed

lemma find_all_weaker:
  "find_all P sp = [] \<Longrightarrow> (\<And>x. Q x \<Longrightarrow> P x) \<Longrightarrow> find_all Q sp = []"
  by (auto simp: find_all_def filter_empty_conv)

lemma is_candidate_attrs: "is_candidate (Element n a cs) = is_candidate (Element n a [])"
  by (simp add: is_candidate_def is_named_def joined_tokens_def get_or_empty_def get_def)

lemma clean_of_find_all_in:
  assumes "\<And>n a cs. Q n a = (\<not> P (Element n a cs))"
  shows "filter P (descendants_and_self nd) = [] \<Longrightarrow> clean Q nd"
proof (induction nd)
  case (Element n a cs)
  from Element.prems have h: "\<not> P (Element n a cs)"
    and "filter P (concat (map descendants_and_self cs)) = []"
    by (simp_all split: if_splits)
  then have "\<And>c. c \<in> set cs \<Longrightarrow> filter P (descendants_and_self c) = []"
    by (auto simp: filter_empty_conv)
  then show ?case using Element.IH h assms by (simp add: list_all_iff)
qed simp_all

lemma flatten_native_no_candidate:
  assumes "find_all is_candidate sp = []"
  shows "find_all is_candidate (flatten_native sp) = []"
proof -
  let ?Q = "\<lambda>n a. \<not> is_candidate (Element n a [])"
  have q: "\<And>n a cs. ?Q n a = (\<not> is_candidate (Element n a cs))"
    using is_candidate_attrs by blast
  have "\<And>c. c \<in> set sp \<Longrightarrow> filter is_candidate (descendants_and_self c) = []"
    using assms by (auto simp: find_all_def descendants_def filter_empty_conv)
  then have "list_all (clean ?Q) sp"
    using clean_of_find_all_in[of ?Q is_candidate, OF q] by (simp add: list_all_iff)
  then have "list_all (clean ?Q) (flatten_native sp)" by (rule list_all_clean_flatten_native)
  moreover have "\<And>n a cs. is_candidate (Element n a cs) \<Longrightarrow> \<not> ?Q n a"
    using q by blast
  moreover have "\<And>x. is_candidate x \<Longrightarrow> is_tag x"
    by (simp add: is_candidate_def is_named_def)
  ultimately show ?thesis
    using find_all_clean[of is_candidate ?Q "flatten_native sp"] by blast
qed

lemma strip_soup_nothing:
  assumes "find_all (removable keep_images) sp = []"
  shows "strip_soup keep_images True sp = flatten_native sp"
proof -
  have a: "find_all (is_named [str ''script'', str ''style'']) sp = []"
    by (rule find_all_weaker[OF assms]) (auto simp: removable_def is_named_def)
  have b: "find_all is_style_link sp = []"
    by (rule find_all_weaker[OF assms]) (simp add: removable_def)
  have c: "find_all (is_named [str ''iframe'', str ''embed'', str ''object'']) sp = []"
    by (rule find_all_weaker[OF assms]) (auto simp: removable_def is_named_def)
  have d: "find_all has_event_attr sp = []"
    by (rule find_all_weaker[OF assms]) (simp add: removable_def)
  have e: "\<not> keep_images \<Longrightarrow> find_all (is_named [str ''img'']) sp = []"
    by (rule find_all_weaker[OF assms]) (simp add: removable_def)
  have f: "find_all is_comment sp = []"
    by (rule find_all_weaker[OF assms]) (simp add: removable_def)
  have g: "find_all is_candidate sp = []"
    by (rule find_all_weaker[OF assms]) (simp add: removable_def)
  have h: "flatten_custom [] (flatten_native sp) = flatten_native sp"
    by (simp add: no_candidate_unchanged flatten_native_no_candidate g)
  show ?thesis
  proof (cases keep_images)
    case True
    then show ?thesis
      by (simp add: strip_soup_def Let_def decompose_all_nothing a b c remove_event_attrs_nothing d
          extract_comments_nothing f h)
  next
    case False
    then show ?thesis
      using e
      by (simp add: strip_soup_def Let_def decompose_all_nothing a b c remove_event_attrs_nothing d
          extract_comments_nothing f h)
  qed
qed

section \<open>Flattening of native inputs\<close>

lemma native_marker_attrs:
  "native_marker (Element n a cs) = native_marker (Element n a [])"
  by (simp add: native_marker_def get_or_empty_def get_def has_attr_def Let_def)

lemma native_marker_Some:
  "is_flattened_input (Element n a cs) \<Longrightarrow>
   native_marker (Element n a cs) =
     Some (native_marker_spec (lower (get_or_empty (Element n a cs) (str ''type'')))
            (has_attr (Element n a cs) (str ''checked'')))"
  by (auto simp: is_flattened_input_def native_marker_def native_marker_spec_def Let_def)

lemma native_marker_None:
  "\<not> is_flattened_input (Element (str ''input'') a cs) \<Longrightarrow>
   native_marker (Element (str ''input'') a cs) = None"
  by (auto simp: is_flattened_input_def native_marker_def Let_def is_named_def)

lemma flatten_native_append:
  "flatten_native (pre @ nd # post) = flatten_native pre @ flatten_native_in nd # flatten_native post"
  by (simp add: flatten_native_def)

lemma flatten_native_in_makes_clean:
  "clean (\<lambda>n a. \<not> is_flattened_input (Element n a [])) (flatten_native_in nd)"
proof (induction nd)
  case (Element n a cs)
  show ?case
  proof (cases "n = str ''input'' \<and> native_marker (Element n a cs) \<noteq> None")
    case True
    then have "flatten_native_in (Element n a cs) =
        NavigableString (the (native_marker (Element n a cs)))"
      by auto
    then show ?thesis by simp
  next
    case False
    then have "\<not> is_flattened_input (Element n a [])"
      using native_marker_Some[of n a cs]
      by (auto simp: is_flattened_input_def is_named_def get_or_empty_def get_def)
    moreover have "flatten_native_in (Element n a cs) = Element n a (map flatten_native_in cs)"
      using False by auto
    ultimately show ?thesis using Element.IH by (simp add: list_all_iff)
  qed
qed simp_all

lemma strip_soup_no_native_input:
  "list_all (clean (\<lambda>n a. \<not> is_flattened_input (Element n a []))) (strip_soup k True sp)"
proof -
  have "list_all (clean (\<lambda>n a. \<not> is_flattened_input (Element n a []))) (flatten_native s)" for s
    by (simp add: flatten_native_def list_all_iff flatten_native_in_makes_clean)
  then show ?thesis
    by (simp add: strip_soup_def Let_def list_all_clean_flatten_custom)
qed

lemma is_flattened_input_attrs:
  "is_flattened_input (Element n a cs) = is_flattened_input (Element n a [])"
  by (simp add: is_flattened_input_def is_named_def get_or_empty_def get_def)

lemma flatten_native_in_other:
  assumes "\<not> is_flattened_input (Element n a [])"
  shows "flatten_native_in (Element n a cs) = Element n a (map flatten_native_in cs)"
proof (cases "n = str ''input''")
  case True
  then have "native_marker (Element n a cs) = None"
    using assms native_marker_None[of a cs] is_flattened_input_attrs[of n a cs] by simp
  then show ?thesis by simp
next
  case False
  then show ?thesis by simp
qed

lemma flatten_native_in_input:
  assumes "is_flattened_input (Element n a cs)"
  shows "flatten_native_in (Element n a cs) =
     NavigableString (native_marker_spec (lower (get_or_empty (Element n a cs) (str ''type'')))
        (has_attr (Element n a cs) (str ''checked'')))"
proof -
  have "n = str ''input''" using assms by (simp add: is_flattened_input_def is_named_def)
  then show ?thesis using native_marker_Some[OF assms] by simp
qed

lemma flatten_native_in_wrap:
  "list_all passes fs \<Longrightarrow>
   flatten_native_in (wrap fs nd) = wrap (map flat_frame fs) (flatten_native_in nd)"
proof (induction fs arbitrary: nd)
  case Nil
  show ?case by simp
next
  case (Cons f fs)
  obtain n a before after where f: "f = (n, a, before, after)" by (cases f) auto
  from Cons.prems f have p: "\<not> is_flattened_input (Element n a [])" and ps: "list_all passes fs"
    by simp_all
  have "flatten_native_in (wrap (f # fs) nd) =
      flatten_native_in (wrap fs (Element n a (before @ nd # after)))"
    by (simp add: f)
  also have "\<dots> = wrap (map flat_frame fs)
      (flatten_native_in (Element n a (before @ nd # after)))"
    by (rule Cons.IH[OF ps])
  also have "\<dots> = wrap (map flat_frame fs)
      (Element n a (map flatten_native_in before @ flatten_native_in nd # map flatten_native_in after))"
    by (simp only: flatten_native_in_other[OF p] map_append list.map)
  also have "\<dots> = wrap (map flat_frame (f # fs)) (flatten_native_in nd)"
    by (simp add: f)
  finally show ?case .
qed

text \<open>
  Claim C2. An \<^verbatim>\<open>input\<close> whose lowered \<^verbatim>\<open>type\<close> is \<^verbatim>\<open>checkbox\<close> or \<^verbatim>\<open>radio\<close> is checked
  exactly when it has a \<^verbatim>\<open>checked\<close> attribute, whatever its value. Wherever it stands in the
  tree, the marker text of its kind and state takes its place among its siblings. No such
  input is left in the tree the strip writes out when \<^verbatim>\<open>flatten_inputs\<close> is set. That tree
  is the flattening of what the other steps of the strip leave; on a document where they
  find nothing to do, it is the document with the marker in the place of the input.
\<close>

theorem native_input_flattening:
  assumes "is_flattened_input (Element n a cs)" and "list_all passes fs"
  shows "native_marker (Element n a cs) =
           Some (native_marker_spec (lower (get_or_empty (Element n a cs) (str ''type'')))
                  (has_attr (Element n a cs) (str ''checked'')))
       \<and> flatten_native (pre @ wrap fs (Element n a cs) # post) =
           flatten_native pre @
           wrap (map flat_frame fs)
             (NavigableString (native_marker_spec (lower (get_or_empty (Element n a cs) (str ''type'')))
                  (has_attr (Element n a cs) (str ''checked'')))) # flatten_native post
       \<and> find_all is_flattened_input (strip_soup keep_images True sp) = []
       \<and> (find_all (removable keep_images) (pre @ wrap fs (Element n a cs) # post) = [] \<longrightarrow>
            strip_soup keep_images True (pre @ wrap fs (Element n a cs) # post) =
              flatten_native pre @
              wrap (map flat_frame fs)
                (NavigableString (native_marker_spec (lower (get_or_empty (Element n a cs) (str ''type'')))
                  (has_attr (Element n a cs) (str ''checked'')))) # flatten_native post)
       \<and> strip_soup keep_images True sp =
           flatten_custom [] (flatten_native (strip_soup keep_images False sp))"
proof -
  let ?m = "native_marker_spec (lower (get_or_empty (Element n a cs) (str ''type'')))
                  (has_attr (Element n a cs) (str ''checked''))"
  have m: "native_marker (Element n a cs) = Some ?m"
    using assms(1) by (rule native_marker_Some)
  have "flatten_native_in (wrap fs (Element n a cs)) = wrap (map flat_frame fs) (NavigableString ?m)"
    by (simp only: flatten_native_in_wrap[OF assms(2)] flatten_native_in_input[OF assms(1)])
  then have r: "flatten_native (pre @ wrap fs (Element n a cs) # post) =
           flatten_native pre @ wrap (map flat_frame fs) (NavigableString ?m) # flatten_native post"
    by (simp add: flatten_native_append)
  have f: "find_all is_flattened_input (strip_soup keep_images True sp) = []"
    by (rule find_all_clean[OF _ _ strip_soup_no_native_input])
       (simp_all add: is_flattened_input_def is_named_def get_or_empty_def get_def)
  have "find_all (removable keep_images) (pre @ wrap fs (Element n a cs) # post) = [] \<longrightarrow>
      strip_soup keep_images True (pre @ wrap fs (Element n a cs) # post) =
        flatten_native pre @ wrap (map flat_frame fs) (NavigableString ?m) # flatten_native post"
    using r by (simp add: strip_soup_nothing)
  moreover have "strip_soup keep_images True sp =
      flatten_custom [] (flatten_native (strip_soup keep_images False sp))"
    by (simp add: strip_soup_def Let_def)
  ultimately show ?thesis using m r f by blast
qed

text \<open>
  The claim at \<^verbatim>\<open><html><body><input type="CheckBox" checked=""></body></html>\<close>: the marker
  stands in the body, where the input was.
\<close>

theorem native_input_flattening_witness:
  "is_flattened_input (Element (str ''input'') [(str ''type'', str ''CheckBox''), (str ''checked'', [])] [])
   \<and> list_all passes [(str ''body'', [], [], []), (str ''html'', [], [], [])]
   \<and> native_marker (Element (str ''input'') [(str ''type'', str ''CheckBox''), (str ''checked'', [])] [])
       = Some (str ''[x] '')
   \<and> find_all (removable True)
         [Element (str ''html'') []
            [Element (str ''body'') []
               [Element (str ''input'') [(str ''type'', str ''CheckBox''), (str ''checked'', [])] []]]] = []
   \<and> strip_soup True True
         [Element (str ''html'') []
            [Element (str ''body'') []
               [Element (str ''input'') [(str ''type'', str ''CheckBox''), (str ''checked'', [])] []]]]
       = [Element (str ''html'') [] [Element (str ''body'') [] [NavigableString (str ''[x] '')]]]"
proof -
  let ?inp = "Element (str ''input'') [(str ''type'', str ''CheckBox''), (str ''checked'', [])] []"
  let ?fs = "[(str ''body'', [], [], []), (str ''html'', [], [], [])] :: frame list"
  have t: "lower (get_or_empty ?inp (str ''type'')) = str ''checkbox''"
    by (simp add: get_or_empty_def get_def lower_def lower_cp_def str_def)
  have h: "is_flattened_input ?inp"
    unfolding is_flattened_input_def t by (simp add: is_named_def)
  have p: "list_all passes ?fs"
    by (simp add: is_flattened_input_def is_named_def str_def)
  have c: "has_attr ?inp (str ''checked'')"
    by (simp add: has_attr_def str_def)
  have s: "native_marker_spec (str ''checkbox'') True = str ''[x] ''"
    by (simp add: native_marker_spec_def box_checked_def)
  have w: "wrap ?fs ?inp = Element (str ''html'') [] [Element (str ''body'') [] [?inp]]"
    by simp
  have r: "find_all (removable True) [Element (str ''html'') [] [Element (str ''body'') [] [?inp]]] = []"
    by (simp add: find_all_def descendants_def removable_def is_named_def is_style_link_def
        has_event_attr_def is_candidate_def is_event_attr_def lower_def lower_cp_def str_def)
  show ?thesis
    using h p r native_input_flattening[OF h p, of "[]" "[]" True "[]"]
    unfolding t w by (simp add: c s flatten_native_def)
qed

section \<open>Classification of custom markers\<close>

lemma first_inner_selectors: "first_inner inner_selectors m = inner_indicator m"
  by (simp add: inner_selectors_def inner_indicator_def split: option.splits)

lemma is_checked_marker_fst:
  "fst (is_checked_marker m f) =
     (contains (str ''result-state'') (lower (joined_tokens m (str ''class'')))
      \<or> (case first_inner inner_selectors m of
            Some inner \<Rightarrow>
              \<not> contains (str ''visibility: hidden'') (lower (get_or_empty inner (str ''style'')))
          | None \<Rightarrow> False))"
  by (simp add: is_checked_marker_def Let_def split: option.splits)

lemma is_checked_marker_snd:
  "snd (is_checked_marker m f) =
     (if contains (str ''result-state'') (lower (joined_tokens m (str ''class'')))
         \<or> first_inner inner_selectors m \<noteq> None
      then (if is_radio_style (lower (get_or_empty m (str ''style''))) then radio_checked
            else box_checked)
      else (if is_radio_style (lower (get_or_empty m (str ''style''))) then radio_unchecked
            else box_unchecked))"
  by (simp add: is_checked_marker_def Let_def split: option.splits)

lemma literals_distinct:
  "radio_checked \<noteq> box_checked" "radio_checked \<noteq> box_unchecked"
  "radio_unchecked \<noteq> box_checked" "radio_unchecked \<noteq> box_unchecked"
  "radio_checked \<noteq> radio_unchecked" "box_checked \<noteq> box_unchecked"
  by (simp_all add: radio_checked_def radio_unchecked_def box_checked_def box_unchecked_def str_def)

lemma marker_text_literals:
  "marker_text_of (True, box_checked) = box_checked"
  "marker_text_of (True, radio_checked) = radio_checked"
  "marker_text_of (False, box_checked) = box_unchecked"
  "marker_text_of (False, radio_checked) = radio_unchecked"
  "marker_text_of (False, box_unchecked) = box_unchecked"
  "marker_text_of (False, radio_unchecked) = radio_unchecked"
  by (simp_all add: marker_text_of_def replace_cp_def radio_checked_def radio_unchecked_def
      box_checked_def box_unchecked_def str_def)

lemma marker_text_by_flag:
  "marker_text_of (is_checked_marker m f) =
     (if fst (is_checked_marker m f)
      then (if is_radio_style (lower (get_or_empty m (str ''style''))) then radio_checked
            else box_checked)
      else (if is_radio_style (lower (get_or_empty m (str ''style''))) then radio_unchecked
            else box_unchecked))"
proof -
  have "marker_text_of (is_checked_marker m f) =
        marker_text_of (fst (is_checked_marker m f), snd (is_checked_marker m f))"
    by simp
  also have "\<dots> = (if fst (is_checked_marker m f)
      then (if is_radio_style (lower (get_or_empty m (str ''style''))) then radio_checked
            else box_checked)
      else (if is_radio_style (lower (get_or_empty m (str ''style''))) then radio_unchecked
            else box_unchecked))"
    unfolding is_checked_marker_snd is_checked_marker_fst
    by (auto simp: marker_text_literals split: option.splits)
  finally show ?thesis .
qed

text \<open>
  Claim C3, as amended. The classification follows the stated precedence, with every test a
  substring test on lowered text. A span is checked when the space-joined text of its class
  list contains \<^verbatim>\<open>result-state\<close>, as the class \<^verbatim>\<open>uu-coursekit-result-state\<close> does; otherwise,
  when an inner tag of class \<^verbatim>\<open>fa\<close>, \<^verbatim>\<open>uu-coursekit-result-state-background\<close> or
  \<^verbatim>\<open>uu-coursekit-wrong-state-background\<close> (preferred in that order) is found, it is checked
  unless the style of that tag contains \<^verbatim>\<open>visibility: hidden\<close>; otherwise it is unchecked,
  with or without an opacity on the text \<^verbatim>\<open>div\<close>. It is a radio exactly when its style
  contains \<^verbatim>\<open>border-radius: 100%\<close>, \<^verbatim>\<open>border-radius:100%\<close> or \<^verbatim>\<open>width: 32px\<close>.
\<close>

theorem marker_classification:
  "fst (is_checked_marker m f) =
     (contains (str ''result-state'') (lower (joined_tokens m (str ''class'')))
      \<or> (case inner_indicator m of
            Some inner \<Rightarrow>
              \<not> contains (str ''visibility: hidden'') (lower (get_or_empty inner (str ''style'')))
          | None \<Rightarrow> False))
   \<and> first_inner inner_selectors m = inner_indicator m
   \<and> (marker_text_of (is_checked_marker m f) \<in> set [radio_checked, radio_unchecked])
       = (contains (str ''border-radius: 100%'') (lower (get_or_empty m (str ''style'')))
          \<or> contains (str ''border-radius:100%'') (lower (get_or_empty m (str ''style'')))
          \<or> contains (str ''width: 32px'') (lower (get_or_empty m (str ''style''))))
   \<and> (marker_text_of (is_checked_marker m f) \<in> set [box_checked, radio_checked])
       = fst (is_checked_marker m f)"
proof -
  have a: "fst (is_checked_marker m f) =
     (contains (str ''result-state'') (lower (joined_tokens m (str ''class'')))
      \<or> (case inner_indicator m of
            Some inner \<Rightarrow>
              \<not> contains (str ''visibility: hidden'') (lower (get_or_empty inner (str ''style'')))
          | None \<Rightarrow> False))"
    by (simp add: is_checked_marker_fst first_inner_selectors)
  have b: "(marker_text_of (is_checked_marker m f) \<in> set [radio_checked, radio_unchecked])
       = is_radio_style (lower (get_or_empty m (str ''style'')))"
    unfolding marker_text_by_flag
    using literals_distinct literals_distinct[symmetric] by simp
  have c: "(marker_text_of (is_checked_marker m f) \<in> set [box_checked, radio_checked])
       = fst (is_checked_marker m f)"
    unfolding marker_text_by_flag
    using literals_distinct literals_distinct[symmetric] by simp
  show ?thesis
    using a b c by (simp add: first_inner_selectors is_radio_style_def)
qed

lemma hidden_icon_code: "fst (is_checked_marker hidden_icon_span [])"
  unfolding is_checked_marker_fst
  by (simp add: hidden_icon_span_def joined_tokens_def get_or_empty_def get_def tokens_def
      is_space_def lower_def lower_cp_def str_def)

lemma hidden_icon_inner:
  "inner_indicator hidden_icon_span =
     Some (Element (str ''i'') [(str ''class'', str ''fa''), (str ''style'', str ''visibility: hidden'')] [])"
  by (simp add: inner_indicator_def select_one_class_def hidden_icon_span_def descendants_def
      has_class_def get_or_empty_def get_def tokens_def is_space_def str_def)

lemma hidden_icon_claim: "\<not> claimed_checked hidden_icon_span"
  unfolding claimed_checked_def hidden_icon_inner
  by (simp add: hidden_icon_span_def get_or_empty_def get_def tokens_def is_space_def lower_def
      lower_cp_def str_def)

lemma tight_width_code: "marker_text_of (is_checked_marker tight_width_span []) = str ''[ ] ''"
proof -
  have a: "\<not> is_radio_style (lower (get_or_empty tight_width_span (str ''style'')))"
    by (simp add: tight_width_span_def get_or_empty_def get_def is_radio_style_def lower_def
        lower_cp_def str_def)
  have b: "\<not> fst (is_checked_marker tight_width_span [])"
    unfolding is_checked_marker_fst first_inner_selectors
    by (simp add: inner_indicator_def select_one_class_def descendants_def tight_width_span_def
        joined_tokens_def get_or_empty_def get_def tokens_def is_space_def lower_def lower_cp_def
        str_def)
  show ?thesis unfolding marker_text_by_flag using a b by (simp add: box_unchecked_def)
qed

lemma tight_width_claim: "claimed_radio tight_width_span"
  by (simp add: claimed_radio_def declarations_def tight_width_span_def get_or_empty_def get_def
      strip_def is_space_def lower_def lower_cp_def str_def)

lemma max_width_code: "marker_text_of (is_checked_marker max_width_span []) = str ''( ) ''"
proof -
  have a: "is_radio_style (lower (get_or_empty max_width_span (str ''style'')))"
    by (simp add: max_width_span_def get_or_empty_def get_def is_radio_style_def lower_def
        lower_cp_def str_def)
  have b: "\<not> fst (is_checked_marker max_width_span [])"
    unfolding is_checked_marker_fst first_inner_selectors
    by (simp add: inner_indicator_def select_one_class_def descendants_def max_width_span_def
        joined_tokens_def get_or_empty_def get_def tokens_def is_space_def lower_def lower_cp_def
        str_def)
  show ?thesis unfolding marker_text_by_flag using a b by (simp add: radio_unchecked_def)
qed

lemma max_width_claim: "\<not> claimed_radio max_width_span"
  by (simp add: claimed_radio_def declarations_def max_width_span_def get_or_empty_def get_def
      strip_def is_space_def lower_def lower_cp_def str_def)

text \<open>
  The claim as stated fails at three spans. The class \<^verbatim>\<open>uu-coursekit-result-state\<close> is not the
  token \<^verbatim>\<open>result-state\<close>, yet the span is checked although its icon is hidden. The style
  \<^verbatim>\<open>width:32px\<close> declares a width of 32px, yet the span is a checkbox. The style
  \<^verbatim>\<open>max-width: 32px\<close> declares no width of 32px, yet the span is a radio.
\<close>

theorem marker_classification_counterexample:
  "fst (is_checked_marker hidden_icon_span []) \<and> \<not> claimed_checked hidden_icon_span
   \<and> marker_text_of (is_checked_marker tight_width_span []) = str ''[ ] ''
   \<and> claimed_radio tight_width_span
   \<and> marker_text_of (is_checked_marker max_width_span []) = str ''( ) ''
   \<and> \<not> claimed_radio max_width_span"
  using hidden_icon_code hidden_icon_claim tight_width_code tight_width_claim max_width_code
    max_width_claim
  by simp

text \<open>
  Claim C4. The marker text of a flattened span is one of the four literals of the native
  inputs; on every path that yields unchecked, the substitution of the glyph gives exactly
  \<^verbatim>\<open>[ ] \<close> for a checkbox and \<^verbatim>\<open>( ) \<close> for a radio.
\<close>

theorem marker_text_is_literal:
  "marker_text_of (is_checked_marker m f) =
     (if fst (is_checked_marker m f)
      then (if is_radio_style (lower (get_or_empty m (str ''style''))) then [40, 8226, 41, 32] else str ''[x] '')
      else (if is_radio_style (lower (get_or_empty m (str ''style''))) then str ''( ) '' else str ''[ ] ''))"
  unfolding marker_text_by_flag
  by (simp add: radio_checked_def radio_unchecked_def box_checked_def box_unchecked_def)

section \<open>Flattening of custom markers\<close>




















lemma kept_simple [simp]:
  "kept vendor_span = vendor_span" "kept bold_tag = bold_tag" "kept answer_div = answer_div"
  by (simp_all add: vendor_span_def bold_tag_def answer_div_def)









section \<open>The analyzer: data URIs and the example\<close>

lemma fold_add_payload:
  "fold (\<lambda>b64 st. st\<lparr>uri_bytes := uri_bytes st + payload_bytes d b64\<rparr>) ps st =
     st\<lparr>uri_bytes := uri_bytes st + sum_list (map (payload_bytes d) ps)\<rparr>"
  by (induction ps arbitrary: st) simp_all

lemma count_data_uri_sum:
  "count_data_uri d s st = st\<lparr>uri_bytes := uri_bytes st + uri_sum d s\<rparr>"
  by (simp add: count_data_uri_def uri_sum_def fold_add_payload)

lemma not_startswith_empty: "\<not> startswith [] (str ''data:'')"
  by (simp add: str_def)

lemma count_image_eq:
  "count_image d img st =
     st\<lparr>uri_bytes := uri_bytes st + (if has_data_src img then uri_sum d (the (src_or_srcset img)) else 0),
        images := images st + (if has_data_src img then 1 else 0)\<rparr>"
  by (cases "src_or_srcset img") (auto simp: count_image_def has_data_src_def count_data_uri_sum not_startswith_empty)

lemma fold_count_image:
  "fold (count_image d) xs st =
     st\<lparr>uri_bytes := uri_bytes st
          + sum_list (map (\<lambda>img. uri_sum d (the (src_or_srcset img))) (filter has_data_src xs)),
        images := images st + length (filter has_data_src xs)\<rparr>"
  by (induction xs arbitrary: st) (simp_all add: count_image_eq)

lemma uri_sum_empty: "uri_sum d [] = 0"
  by (simp add: uri_sum_def)

lemma count_style_eq:
  "count_style d el st =
     st\<lparr>uri_bytes := uri_bytes st + uri_sum d (get_or_empty el (str ''style''))\<rparr>"
  by (cases "get el (str ''style'')")
     (simp_all add: count_style_def get_or_empty_def count_data_uri_sum uri_sum_empty)

lemma fold_count_style:
  "fold (count_style d) xs st =
     st\<lparr>uri_bytes := uri_bytes st
          + sum_list (map (\<lambda>el. uri_sum d (get_or_empty el (str ''style''))) xs)\<rparr>"
  by (induction xs arbitrary: st) (simp_all add: count_style_eq)

text \<open>
  Claim C6, as amended. \<^verbatim>\<open>data_uri_bytes\<close> is the sum, over the matches of the pattern in the
  \<^verbatim>\<open>src\<close> (or, when that is absent or empty, the \<^verbatim>\<open>srcset\<close>) of every \<^verbatim>\<open>img\<close> or \<^verbatim>\<open>source\<close>
  whose value starts with \<^verbatim>\<open>data:\<close>, and in the style attribute of every tag, of the decoded
  length of the payload, or of three quarters of its length rounded down when decoding
  fails; \<^verbatim>\<open>images_count\<close> is the number of those \<^verbatim>\<open>img\<close> and \<^verbatim>\<open>source\<close> tags.
\<close>

theorem data_uri_accounting:
  "data_uri_bytes (analyze_html parse htmlmin b64decode html) =
     sum_list (map (\<lambda>img. uri_sum b64decode (the (src_or_srcset img)))
                 (filter has_data_src (find_all (is_named [str ''img'', str ''source'']) (parse html))))
     + sum_list (map (\<lambda>el. uri_sum b64decode (get_or_empty el (str ''style'')))
                 (find_all is_tag (parse html)))
   \<and> images_count (analyze_html parse htmlmin b64decode html) =
     length (filter has_data_src (find_all (is_named [str ''img'', str ''source'']) (parse html)))"
  by (simp add: analyze_html_def Let_def count_data_uris_def fold_count_image fold_count_style)

lemma startswith_append: "startswith (p @ s) p"
  by (induction p) simp_all

lemma str_data: "str ''data:'' = [100, 97, 116, 97, 58]"
  by (simp add: str_def)

lemma str_base64: "str '';base64,'' = [59, 98, 97, 115, 101, 54, 52, 44]"
  by (simp add: str_def)

lemma match_here_uri:
  assumes "mime \<noteq> []" and "59 \<notin> set mime" and "p \<noteq> []" and "list_all is_b64_char p"
  shows "match_here (str ''data:'' @ mime @ str '';base64,'' @ p) = Some (p, [])"
proof -
  let ?s = "str ''data:'' @ mime @ str '';base64,'' @ p"
  have a: "startswith ?s (str ''data:'')" by (rule startswith_append)
  have b: "drop 5 ?s = mime @ str '';base64,'' @ p" by (simp add: str_data)
  have m: "\<And>x. x \<in> set mime \<Longrightarrow> x \<noteq> 59" using assms(2) by auto
  have c: "takeWhile (\<lambda>c. c \<noteq> 59) (mime @ str '';base64,'' @ p) = mime"
    by (simp add: str_base64 takeWhile_append2[of mime "\<lambda>c. c \<noteq> 59", OF m])
  have d: "dropWhile (\<lambda>c. c \<noteq> 59) (mime @ str '';base64,'' @ p) = str '';base64,'' @ p"
    by (simp add: str_base64 dropWhile_append2[of mime "\<lambda>c. c \<noteq> 59", OF m])
  have e: "startswith (str '';base64,'' @ p) (str '';base64,'')" by (rule startswith_append)
  have f: "drop 8 (str '';base64,'' @ p) = p" by (simp add: str_base64)
  have g: "takeWhile is_b64_char p = p" "dropWhile is_b64_char p = []"
    using assms(4) by (simp_all add: list_all_iff)
  show ?thesis
    unfolding match_here_def using a assms(1,3)
    by (simp only: b c d e f g Let_def if_True if_False)
qed

lemma finditer_uri:
  assumes "mime \<noteq> []" and "59 \<notin> set mime" and "p \<noteq> []" and "list_all is_b64_char p"
  shows "finditer (str ''data:'' @ mime @ str '';base64,'' @ p) = [p]"
proof -
  obtain c cs where s: "str ''data:'' @ mime @ str '';base64,'' @ p = c # cs"
    by (simp add: str_data)
  have "finditer (c # cs) = [p]"
    using match_here_uri[OF assms] unfolding s by simp
  then show ?thesis unfolding s .
qed

text \<open>
  Claim C7. When the decoder rejects the payload of a data URI, \<^verbatim>\<open>count_data_uri\<close> returns
  normally and has added three quarters of the length of the payload, rounded down, to the
  byte counter, and nothing else has changed.
\<close>

theorem undecodable_payload_estimate:
  assumes "mime \<noteq> []" and "59 \<notin> set mime" and "p \<noteq> []" and "list_all is_b64_char p"
    and "b64decode p = None"
  shows "count_data_uri b64decode (str ''data:'' @ mime @ str '';base64,'' @ p) st =
           st\<lparr>uri_bytes := uri_bytes st + (length p * 3) div 4\<rparr>"
  using assms(5)
  by (simp add: count_data_uri_sum uri_sum_def finditer_uri[OF assms(1-4)] payload_bytes_def)

text \<open>The claim at \<^verbatim>\<open>data:image/png;base64,AAAAA\<close>: five characters, three bytes.\<close>

theorem undecodable_payload_estimate_witness:
  "str ''image/png'' \<noteq> [] \<and> 59 \<notin> set (str ''image/png'') \<and> str ''AAAAA'' \<noteq> []
   \<and> list_all is_b64_char (str ''AAAAA'') \<and> sample_decoder (str ''AAAAA'') = None
   \<and> count_data_uri sample_decoder (str ''data:image/png;base64,AAAAA'') \<lparr>uri_bytes = 0, images = 0\<rparr>
       = \<lparr>uri_bytes = 3, images = 0\<rparr>"
proof -
  have h1: "str ''image/png'' \<noteq> []" and h2: "59 \<notin> set (str ''image/png'')"
    and h3: "str ''AAAAA'' \<noteq> []" and h4: "list_all is_b64_char (str ''AAAAA'')"
    by (simp_all add: str_def is_b64_char_def)
  have h5: "sample_decoder (str ''AAAAA'') = None"
    by (simp add: sample_decoder_def str_def)
  have e: "str ''data:'' @ str ''image/png'' @ str '';base64,'' @ str ''AAAAA''
      = str ''data:image/png;base64,AAAAA''" by (simp add: str_def)
  have l: "length (str ''AAAAA'') = 5" by (simp add: str_def)
  show ?thesis
    using h1 h2 h3 h4 h5
      undecodable_payload_estimate[of "str ''image/png''" "str ''AAAAA''" sample_decoder
        "\<lparr>uri_bytes = 0, images = 0\<rparr>"]
    unfolding e l by simp
qed

lemma srcset_image_src:
  "src_or_srcset srcset_image = Some (str ''a.png, data:i/p;base64,AAAA 2x'')"
  by (simp add: src_or_srcset_def srcset_image_def get_def)
     (simp add: str_def)?

lemma srcset_uri_sum: "uri_sum sample_decoder (str ''a.png, data:i/p;base64,AAAA 2x'') = 3"
proof -
  have "finditer (str ''a.png, data:i/p;base64,AAAA 2x'') = [str ''AAAA'']"
    by (simp add: str_def match_here_def is_b64_char_def)
  then show ?thesis by (simp add: uri_sum_def payload_bytes_def sample_decoder_def)
qed

lemma srcset_image_found:
  "find_all (is_named [str ''img'', str ''source'']) [srcset_image] = [srcset_image]"
  "find_all is_tag [srcset_image] = [srcset_image]"
  by (simp_all add: find_all_def descendants_def srcset_image_def is_named_def)

lemma srcset_image_no_data_src: "\<not> has_data_src srcset_image"
  by (simp add: has_data_src_def srcset_image_src)
     (simp add: str_def)?

lemma srcset_image_style: "uri_sum d (get_or_empty srcset_image (str ''style'')) = 0"
  by (simp add: get_or_empty_def get_def srcset_image_def uri_sum_empty)
     (simp add: str_def uri_sum_empty)?

text \<open>
  The claim as stated counts every data URI found in the \<^verbatim>\<open>src\<close> or \<^verbatim>\<open>srcset\<close> of an image.
  The source scans the value only when it starts with \<^verbatim>\<open>data:\<close>: a \<^verbatim>\<open>srcset\<close> whose second
  candidate is a data URI adds nothing.
\<close>

theorem data_uri_accounting_counterexample:
  "data_uri_bytes (analyze_html parse_srcset_image no_minify sample_decoder
       (str ''<img srcset=\"a.png, data:i/p;base64,AAAA 2x\">'')) = 0
   \<and> claimed_data_uri_bytes sample_decoder
       (parse_srcset_image (str ''<img srcset=\"a.png, data:i/p;base64,AAAA 2x\">'')) = 3"
proof -
  have a: "data_uri_bytes (analyze_html parse_srcset_image no_minify sample_decoder h) = 0" for h
    by (simp add: analyze_html_def Let_def count_data_uris_def fold_count_image fold_count_style
        parse_srcset_image_def srcset_image_found srcset_image_no_data_src srcset_image_style)
  have b: "claimed_data_uri_bytes sample_decoder (parse_srcset_image h) = 3" for h
    by (simp add: claimed_data_uri_bytes_def parse_srcset_image_def srcset_image_found
        srcset_image_src srcset_uri_sum srcset_image_style)
  show ?thesis using a b by simp
qed

lemma example_comments: "find_all is_comment example_soup = [Comment (str ''c'')]"
  by (simp add: example_soup_def find_all_def descendants_def)

lemma example_scripts: "find_all (is_named [str ''script'']) example_soup = []"
  by (simp add: example_soup_def find_all_def descendants_def is_named_def)
     (simp add: str_def)?

lemma example_tags:
  "map style_attr_bytes (find_all is_tag example_soup) = [0, 0, 9]"
  by (simp add: example_soup_def find_all_def descendants_def style_attr_bytes_def has_attr_def
      get_def)
     (simp add: str_def len_bytes_def utf8_len_def)?

lemma example_text:
  "get_text (str '' '') True
     (document (decompose_all (is_named [str ''script'', str ''style'']) example_soup)) = str ''Hi''"
  by (simp add: example_soup_def decompose_all_def is_named_def get_text_def all_strings_def
      document_def descendants_def string_containers_def strip_def)
     (simp add: str_def is_space_def)?

lemma example_fields:
  assumes "parse example_html = example_soup"
  shows "comments_bytes (analyze_html parse htmlmin b64decode example_html) = 1"
    and "inline_style_attr_bytes (analyze_html parse htmlmin b64decode example_html) = 9"
    and "text_chars (analyze_html parse htmlmin b64decode example_html) = 2"
    and "scripts_bytes (analyze_html parse htmlmin b64decode example_html) = 0"
proof -
  show "comments_bytes (analyze_html parse htmlmin b64decode example_html) = 1"
    by (simp add: analyze_html_def Let_def assms example_comments)
     (simp add: str_def len_bytes_def utf8_len_def)?
  show "inline_style_attr_bytes (analyze_html parse htmlmin b64decode example_html) = 9"
    by (simp add: analyze_html_def Let_def assms example_tags)
  show "text_chars (analyze_html parse htmlmin b64decode example_html) = 2"
    by (simp add: analyze_html_def Let_def assms example_text)
     (simp add: str_def)?
  show "scripts_bytes (analyze_html parse htmlmin b64decode example_html) = 0"
    by (simp add: analyze_html_def Let_def assms example_scripts)
qed

text \<open>
  Claim C8, as amended. On the example document the analyzer reports one comment byte,
  nine bytes of inline style, two text characters and no script bytes.
\<close>

theorem example_report:
  assumes "parse example_html = example_soup"
  shows "comments_bytes (analyze_html parse htmlmin b64decode example_html) = 1
       \<and> inline_style_attr_bytes (analyze_html parse htmlmin b64decode example_html) = 9
       \<and> text_chars (analyze_html parse htmlmin b64decode example_html) = 2
       \<and> scripts_bytes (analyze_html parse htmlmin b64decode example_html) = 0"
  using assms example_fields[of parse htmlmin b64decode] by simp

theorem example_report_witness:
  "parse_example example_html = example_soup
   \<and> comments_bytes (analyze_html parse_example no_minify sample_decoder example_html) = 1
   \<and> inline_style_attr_bytes (analyze_html parse_example no_minify sample_decoder example_html) = 9
   \<and> text_chars (analyze_html parse_example no_minify sample_decoder example_html) = 2
   \<and> scripts_bytes (analyze_html parse_example no_minify sample_decoder example_html) = 0"
proof -
  have h: "parse_example example_html = example_soup" by (simp add: parse_example_def)
  show ?thesis using h example_report[of parse_example no_minify sample_decoder] by simp
qed

text \<open>
  The numbers of the claim as stated, three comment bytes and ten bytes of inline style,
  are not the ones reported: the comment is \<^verbatim>\<open>c\<close> and the style is \<^verbatim>\<open>color:red\<close>.
\<close>

theorem example_report_counterexample:
  "comments_bytes (analyze_html parse_example no_minify sample_decoder example_html) \<noteq> 3
   \<and> inline_style_attr_bytes (analyze_html parse_example no_minify sample_decoder example_html) \<noteq> 10"
proof -
  have h: "parse_example example_html = example_soup" by (simp add: parse_example_def)
  show ?thesis using h example_fields(1,2)[of parse_example no_minify sample_decoder] by simp
qed

section \<open>The reported sizes\<close>

lemma file_size_report_of: "file_size (report_of lib content) = len_bytes (lib_read_text lib content)"
  by (simp add: report_of_def analyze_html_def Let_def)

lemma mode_not_analyze:
  "m = str ''minify'' \<or> m = str ''aggressive'' \<Longrightarrow> m \<noteq> str ''analyze''"
  by (auto simp: str_def)

lemma process_file_writes:
  assumes "fs (arg_input a) = Some content"
    and "arg_mode a = str ''minify'' \<or> arg_mode a = str ''aggressive''"
    and "lib_write_text lib (out_html_of lib a (lib_read_text lib content)) = Some bytes"
  shows "process_file lib fs (arg_input a) (arg_mode a) (arg_output a)
           (arg_keep_images a) (arg_flatten_inputs a) =
         (Inr (report_of lib content, arg_input a,
               Some (resolve_output lib (arg_input a) (arg_mode a) (arg_output a))),
          fs(resolve_output lib (arg_input a) (arg_mode a) (arg_output a) \<mapsto> bytes))"
  using assms mode_not_analyze[OF assms(2)]
  by (simp add: process_file_def Let_def write_output_def out_html_of_def report_of_def)

text \<open>
  Claim C10. In the modes that write a file, the \<^verbatim>\<open>File size\<close> of the report is the UTF-8
  length of the text read from the input file, not the number of bytes of the file; the
  saved bytes are that length minus the number of bytes of the written file, and the
  percentage is their quotient by that length. So when reading dropped bytes, that is when
  the text read is shorter in UTF-8 than the file, the saved bytes reported are fewer than
  the bytes by which the written file is smaller than the input file.
\<close>

theorem reported_savings:
  assumes "fs (arg_input a) = Some content"
    and "arg_mode a = str ''minify'' \<or> arg_mode a = str ''aggressive''"
    and "resolve_output lib (arg_input a) (arg_mode a) (arg_output a) \<noteq> []"
    and "lib_write_text lib (out_html_of lib a (lib_read_text lib content)) = Some bytes"
  shows "main lib fs a =
           (Inr (report_of lib content,
                 Some \<lparr>orig = len_bytes (lib_read_text lib content),
                       new_size = length bytes,
                       savings = int (len_bytes (lib_read_text lib content)) - int (length bytes),
                       pct = (if len_bytes (lib_read_text lib content) \<noteq> 0
                              then real_of_int (int (len_bytes (lib_read_text lib content))
                                                - int (length bytes))
                                   / real (len_bytes (lib_read_text lib content)) * 100
                              else 0)\<rparr>),
            fs(resolve_output lib (arg_input a) (arg_mode a) (arg_output a) \<mapsto> bytes))
       \<and> file_size (report_of lib content) = len_bytes (lib_read_text lib content)
       \<and> (len_bytes (lib_read_text lib content) < length content \<longrightarrow>
            int (len_bytes (lib_read_text lib content)) - int (length bytes)
              < int (length content) - int (length bytes))"
proof -
  have pf: "process_file lib fs (arg_input a) (arg_mode a) (arg_output a)
           (arg_keep_images a) (arg_flatten_inputs a) =
         (Inr (report_of lib content, arg_input a,
               Some (resolve_output lib (arg_input a) (arg_mode a) (arg_output a))),
          fs(resolve_output lib (arg_input a) (arg_mode a) (arg_output a) \<mapsto> bytes))"
    using assms(1,2,4) by (rule process_file_writes)
  show ?thesis
    using assms(1,3) by (simp add: main_def pf file_size_report_of Let_def)
qed

text \<open>The claim on the example run: two bytes reported for a file of three.\<close>

theorem reported_savings_witness:
  "sample_files (arg_input sample_args) = Some [97, 255, 98]
   \<and> (arg_mode sample_args = str ''minify'' \<or> arg_mode sample_args = str ''aggressive'')
   \<and> resolve_output sample_library (arg_input sample_args) (arg_mode sample_args)
         (arg_output sample_args) = str ''a.minify.html''
   \<and> lib_write_text sample_library
         (out_html_of sample_library sample_args (lib_read_text sample_library [97, 255, 98]))
       = Some [97, 98]
   \<and> main sample_library sample_files sample_args =
         (Inr (report_of sample_library [97, 255, 98],
               Some \<lparr>orig = 2, new_size = 2, savings = 0, pct = 0\<rparr>),
          sample_files(str ''a.minify.html'' \<mapsto> [97, 98]))
   \<and> file_size (report_of sample_library [97, 255, 98]) = 2
   \<and> len_bytes (lib_read_text sample_library [97, 255, 98]) < length [97, 255, 98 :: nat]"
proof -
  have h1: "sample_files (arg_input sample_args) = Some [97, 255, 98]"
    by (simp add: sample_files_def sample_args_def)
  have h2: "arg_mode sample_args = str ''minify'' \<or> arg_mode sample_args = str ''aggressive''"
    by (simp add: sample_args_def)
  have r: "resolve_output sample_library (arg_input sample_args) (arg_mode sample_args)
         (arg_output sample_args) = str ''a.minify.html''"
    by (simp add: resolve_output_def default_output_path_def sample_library_def sample_args_def
        str_def)
  have h3: "resolve_output sample_library (arg_input sample_args) (arg_mode sample_args)
         (arg_output sample_args) \<noteq> []"
    unfolding r by (simp add: str_def)
  have t: "lib_read_text sample_library [97, 255, 98] = [97, 98]"
    by (simp add: sample_library_def)
  have h4: "lib_write_text sample_library
         (out_html_of sample_library sample_args (lib_read_text sample_library [97, 255, 98]))
       = Some [97, 98]"
    unfolding t
    by (simp add: out_html_of_def sample_args_def sample_library_def minify_only_def no_minify_def)
  have l: "len_bytes [97, 98] = 2" by (simp add: len_bytes_def utf8_len_def)
  show ?thesis
    using h1 h2 h3 h4 r
      reported_savings[where fs = sample_files and a = sample_args and content = "[97, 255, 98]"
        and lib = sample_library and bytes = "[97, 98]"]
    unfolding t l r by simp
qed

end
